theory Spec2Isabelle
  imports Complex_Main
begin

section \<open>Tensors and the computational graph\<close>

text \<open>
  The program (\<^verbatim>\<open>pinns.py\<close>) works on column tensors of shape \<open>[N,1]\<close>. A tensor is
  modelled by the list of its \<open>N\<close> elements, and each element by the expression that
  produced it: the computational graph of the tensor runtime, read element by element.
  Values are real numbers: the rounding, overflow and NaN of 32-bit floating point are
  outside the model.

  A tensor the program holds in a variable is a graph node with an identity, and its
  values live in a store. Its elements enter an expression as \<open>Elem\<close> leaves when the
  tensor requires grad, and as plain constants when it does not.
\<close>

datatype tid = Input nat | Local nat

datatype pid = W nat nat nat | B nat nat

datatype expr =
    Const real
  | Elem tid nat
  | Param pid
  | Add expr expr
  | Sub expr expr
  | Mul expr expr
  | Neg expr
  | Tanh expr
  | Sin expr
  | Cos expr
  | Power expr nat

type_synonym store = "tid \<Rightarrow> nat \<Rightarrow> real"

type_synonym params = "pid \<Rightarrow> real"

record tensor =
  tid :: tid
  numel :: nat
  requires_grad :: bool

datatype error =
    ZeroDivisionError
  | IndexError
  | SizeMismatch
  | GradShapeMismatch
  | OutputNoGrad
  | InputNoGrad
  | UnusedInput
  | EmptyMean

type_synonym model = "expr list \<Rightarrow> expr list \<Rightarrow> error + expr list"

definition bind_err :: "error + 'a \<Rightarrow> ('a \<Rightarrow> error + 'b) \<Rightarrow> error + 'b" where
  "bind_err m f = (case m of Inl e \<Rightarrow> Inl e | Inr v \<Rightarrow> f v)"

text \<open>The value of a graph node under parameter values \<open>\<theta>\<close> and a store \<open>\<sigma>\<close>.\<close>

fun eval :: "params \<Rightarrow> store \<Rightarrow> expr \<Rightarrow> real" where
  "eval \<theta> \<sigma> (Const c) = c"
| "eval \<theta> \<sigma> (Elem k j) = \<sigma> k j"
| "eval \<theta> \<sigma> (Param p) = \<theta> p"
| "eval \<theta> \<sigma> (Add a b) = eval \<theta> \<sigma> a + eval \<theta> \<sigma> b"
| "eval \<theta> \<sigma> (Sub a b) = eval \<theta> \<sigma> a - eval \<theta> \<sigma> b"
| "eval \<theta> \<sigma> (Mul a b) = eval \<theta> \<sigma> a * eval \<theta> \<sigma> b"
| "eval \<theta> \<sigma> (Neg a) = - eval \<theta> \<sigma> a"
| "eval \<theta> \<sigma> (Tanh a) = tanh (eval \<theta> \<sigma> a)"
| "eval \<theta> \<sigma> (Sin a) = sin (eval \<theta> \<sigma> a)"
| "eval \<theta> \<sigma> (Cos a) = cos (eval \<theta> \<sigma> a)"
| "eval \<theta> \<sigma> (Power a n) = eval \<theta> \<sigma> a ^ n"

text \<open>The elements of a tensor held in the store, as the graph sees them.\<close>

definition elems :: "store \<Rightarrow> tensor \<Rightarrow> expr list" where
  "elems \<sigma> h = map (\<lambda>j. if requires_grad h then Elem (tid h) j else Const (\<sigma> (tid h) j)) [0..<numel h]"

text \<open>
  \<open>needs_grad e\<close>: the node has a \<open>grad_fn\<close> or is a tracked leaf, that is, a tracked
  tensor or a parameter of the network went into it. \<open>uses k e\<close>: the tracked tensor \<open>k\<close>
  is in the graph of the node.
\<close>

fun needs_grad :: "expr \<Rightarrow> bool" where
  "needs_grad (Const c) = False"
| "needs_grad (Elem k j) = True"
| "needs_grad (Param p) = True"
| "needs_grad (Add a b) = (needs_grad a \<or> needs_grad b)"
| "needs_grad (Sub a b) = (needs_grad a \<or> needs_grad b)"
| "needs_grad (Mul a b) = (needs_grad a \<or> needs_grad b)"
| "needs_grad (Neg a) = needs_grad a"
| "needs_grad (Tanh a) = needs_grad a"
| "needs_grad (Sin a) = needs_grad a"
| "needs_grad (Cos a) = needs_grad a"
| "needs_grad (Power a n) = needs_grad a"

fun uses :: "tid \<Rightarrow> expr \<Rightarrow> bool" where
  "uses k (Const c) = False"
| "uses k (Elem k' j) = (k' = k)"
| "uses k (Param p) = False"
| "uses k (Add a b) = (uses k a \<or> uses k b)"
| "uses k (Sub a b) = (uses k a \<or> uses k b)"
| "uses k (Mul a b) = (uses k a \<or> uses k b)"
| "uses k (Neg a) = uses k a"
| "uses k (Tanh a) = uses k a"
| "uses k (Sin a) = uses k a"
| "uses k (Cos a) = uses k a"
| "uses k (Power a n) = uses k a"

section \<open>The differentiation engine\<close>

text \<open>
  One reverse-mode pass of the runtime (\<^verbatim>\<open>torch.autograd.grad\<close> with
  \<^verbatim>\<open>create_graph=True\<close>). \<open>bp g e\<close> propagates the incoming gradient \<open>g\<close> from the
  node \<open>e\<close> back to the tracked leaves and lists what arrives at each leaf; what arrives
  is itself a graph node, so a later pass can differentiate it. The local rules are the
  backward formulas of the runtime's operators: for a product the gradient times the
  other factor, for \<open>tanh\<close> the gradient times \<open>1 - out\<^sup>2\<close>, for \<open>x ^ n\<close> the gradient times
  \<open>n * x ^ (n - 1)\<close> and zeros when \<open>n = 0\<close>.
\<close>

fun bp :: "expr \<Rightarrow> expr \<Rightarrow> (expr \<times> expr) list" where
  "bp g (Const c) = []"
| "bp g (Elem k j) = [(Elem k j, g)]"
| "bp g (Param p) = [(Param p, g)]"
| "bp g (Add a b) = bp g a @ bp g b"
| "bp g (Sub a b) = bp g a @ bp (Neg g) b"
| "bp g (Mul a b) = bp (Mul g b) a @ bp (Mul g a) b"
| "bp g (Neg a) = bp (Neg g) a"
| "bp g (Tanh a) = bp (Mul g (Sub (Const 1) (Power (Tanh a) 2))) a"
| "bp g (Sin a) = bp (Mul g (Cos a)) a"
| "bp g (Cos a) = bp (Mul g (Neg (Sin a))) a"
| "bp g (Power a n) =
     (if n = 0 then bp (Const 0) a
      else bp (Mul g (Mul (Const (real n)) (Power a (n - 1)))) a)"

text \<open>The gradient accumulated at one leaf: zeros when nothing arrives.\<close>

fun sum_expr :: "expr list \<Rightarrow> expr" where
  "sum_expr [] = Const 0"
| "sum_expr [c] = c"
| "sum_expr (c # cs) = Add c (sum_expr cs)"

definition arriving :: "expr \<Rightarrow> (expr \<times> expr) list \<Rightarrow> expr list" where
  "arriving l cs = map snd (filter (\<lambda>lc. fst lc = l) cs)"

text \<open>
  \<^verbatim>\<open>torch.autograd.grad(outputs, inputs, grad_outputs, create_graph=True,
  retain_graph=True)[0]\<close> for one output tensor and one input tensor. The runtime
  refuses, in this order: a \<^verbatim>\<open>grad_outputs\<close> whose shape is not the output's; an output
  that does not require grad; an input that does not require grad; an input that is
  not in the graph of the output (\<^verbatim>\<open>allow_unused\<close> is left at its default). Otherwise
  the result has the input's shape, and its element \<open>j\<close> is the sum over the output's
  elements of \<open>grad_outputs[i]\<close> times the derivative of element \<open>i\<close> by the input's
  element \<open>j\<close>. The engine walks the graph node by node and adds up what arrives at a
  node before going on; \<open>bp\<close> walks it path by path, which gives the same sums. A tensor
  with no element has no node in this element-wise graph and counts as not requiring
  grad; the tensors of the program have at least one element.
\<close>

definition autograd_grad :: "expr list \<Rightarrow> tensor \<Rightarrow> expr list \<Rightarrow> error + expr list" where
  "autograd_grad outputs inputs grad_outputs =
     (if length grad_outputs \<noteq> length outputs then Inl GradShapeMismatch
      else if \<not> list_ex needs_grad outputs then Inl OutputNoGrad
      else if \<not> requires_grad inputs then Inl InputNoGrad
      else if \<not> list_ex (uses (tid inputs)) outputs then Inl UnusedInput
      else Inr (map (\<lambda>j. sum_expr (arriving (Elem (tid inputs) j)
                  (concat (map2 bp grad_outputs outputs)))) [0..<numel inputs]))"

definition ones_like :: "tensor \<Rightarrow> expr list" where
  "ones_like h = replicate (numel h) (Const 1)"

text \<open>
  \<^verbatim>\<open>df\<close> (lines 38 to 49): \<^verbatim>\<open>order\<close> passes, each with
  \<^verbatim>\<open>grad_outputs=torch.ones_like(input_var)\<close>. \<^verbatim>\<open>range(order)\<close> is empty for
  \<^verbatim>\<open>order <= 0\<close>, and the output is then returned as it came.
\<close>

fun df_loop :: "nat \<Rightarrow> expr list \<Rightarrow> tensor \<Rightarrow> error + expr list" where
  "df_loop 0 df_value input_var = Inr df_value"
| "df_loop (Suc n) df_value input_var =
     (case autograd_grad df_value input_var (ones_like input_var) of
        Inl e \<Rightarrow> Inl e
      | Inr df_value' \<Rightarrow> df_loop n df_value' input_var)"

definition df :: "expr list \<Rightarrow> tensor \<Rightarrow> int \<Rightarrow> error + expr list" where
  "df output input_var order = df_loop (nat order) output input_var"


section \<open>The network\<close>

text \<open>
  \<^verbatim>\<open>simple_NN2\<close> (lines 20 to 36). \<^verbatim>\<open>nn.Linear(n_in, n_out)\<close> at position \<open>l\<close> of the
  \<^verbatim>\<open>nn.Sequential\<close> owns the weights \<open>W l u k\<close> and the biases \<open>B l u\<close>; applied to one row
  it gives, for each output unit \<open>u\<close>, the sum of \<open>input[k] * W l u k\<close> plus \<open>B l u\<close>. The
  shapes \<open>2, 16, 32, 16, 1\<close> are those of the constructor. The parameter values are not
  part of the graph: they are read from \<open>\<theta>\<close> when a node is evaluated.
\<close>

definition Linear :: "nat \<Rightarrow> nat \<Rightarrow> nat \<Rightarrow> expr list \<Rightarrow> expr list" where
  "Linear l n_in n_out inp =
     map (\<lambda>u. Add (sum_expr (map (\<lambda>k. Mul (inp ! k) (Param (W l u k))) [0..<n_in])) (Param (B l u)))
       [0..<n_out]"

definition linear_tanh_stack :: "expr list \<Rightarrow> expr list" where
  "linear_tanh_stack v =
     Linear 6 16 1 (map Tanh (Linear 4 32 16 (map Tanh (Linear 2 16 32 (map Tanh (Linear 0 2 16 v))))))"

text \<open>
  \<^verbatim>\<open>forward\<close>: \<^verbatim>\<open>torch.cat([x, t], dim=1)\<close> needs the same number of rows in both
  tensors; each row \<open>[x[i], t[i]]\<close> then goes through the stack on its own and gives the
  one value of row \<open>i\<close> of the output.
\<close>

definition forward_row :: "expr \<Rightarrow> expr \<Rightarrow> expr" where
  "forward_row a b = linear_tanh_stack [a, b] ! 0"

definition forward :: model where
  "forward x t =
     (if length x \<noteq> length t then Inl SizeMismatch
      else Inr (map2 forward_row x t))"

text \<open>\<^verbatim>\<open>dfdt\<close> and \<^verbatim>\<open>dfdx\<close> (lines 51 to 59): a forward evaluation, then \<^verbatim>\<open>df\<close>.\<close>

definition dfdt :: "model \<Rightarrow> store \<Rightarrow> tensor \<Rightarrow> tensor \<Rightarrow> int \<Rightarrow> error + expr list" where
  "dfdt model \<sigma> x t order = bind_err (model (elems \<sigma> x) (elems \<sigma> t)) (\<lambda>f_value. df f_value t order)"

definition dfdx :: "model \<Rightarrow> store \<Rightarrow> tensor \<Rightarrow> tensor \<Rightarrow> int \<Rightarrow> error + expr list" where
  "dfdx model \<sigma> x t order = bind_err (model (elems \<sigma> x) (elems \<sigma> t)) (\<lambda>f_value. df f_value x order)"

section \<open>The loss\<close>

text \<open>
  Elementwise arithmetic on two tensors broadcasts as the runtime does: equal sizes
  pair up, a tensor of one element is repeated, and anything else is refused.
\<close>

definition broadcast2 :: "(expr \<Rightarrow> expr \<Rightarrow> expr) \<Rightarrow> expr list \<Rightarrow> expr list \<Rightarrow> error + expr list" where
  "broadcast2 f a b =
     (if length a = length b then Inr (map2 f a b)
      else if length b = 1 then Inr (map (\<lambda>u. f u (b ! 0)) a)
      else if length a = 1 then Inr (map (\<lambda>v. f (a ! 0) v) b)
      else Inl SizeMismatch)"

text \<open>
  \<^verbatim>\<open>x[i]\<close> on a column tensor: row \<open>i\<close>, counted from the end when \<open>i\<close> is negative, and
  an \<^verbatim>\<open>IndexError\<close> when there is no such row.
\<close>

definition select :: "store \<Rightarrow> tensor \<Rightarrow> int \<Rightarrow> error + expr list" where
  "select \<sigma> h i =
     (if 0 \<le> i \<and> i < int (numel h) then Inr [elems \<sigma> h ! nat i]
      else if i < 0 \<and> - int (numel h) \<le> i then Inr [elems \<sigma> h ! nat (int (numel h) + i)]
      else Inl IndexError)"

text \<open>\<^verbatim>\<open>initial_condition\<close> (lines 88 to 90).\<close>

definition initial_condition :: "expr list \<Rightarrow> expr list" where
  "initial_condition x = map (\<lambda>e. Mul (Sin (Mul (Const (2 * pi)) e)) (Const 0.5)) x"

text \<open>
  \<^verbatim>\<open>.pow(2).mean()\<close>. The mean of an empty tensor is nan in the runtime, not an
  exception; the real numbers have no nan, so the model stops there with \<open>EmptyMean\<close>.
\<close>

definition mean :: "expr list \<Rightarrow> error + expr" where
  "mean v = (if v = [] then Inl EmptyMean else Inr (Mul (sum_expr v) (Const (1 / real (length v)))))"

definition pow2_mean :: "expr list \<Rightarrow> error + expr" where
  "pow2_mean v = mean (map (\<lambda>e. Power e 2) v)"

text \<open>
  \<^verbatim>\<open>compute_loss\<close>, line 103. Python evaluates the left operand first, then
  \<^verbatim>\<open>1/C**2\<close> (a \<^verbatim>\<open>ZeroDivisionError\<close> when \<^verbatim>\<open>C**2\<close> is zero), then the second
  derivative by time.
\<close>

definition pde_loss :: "model \<Rightarrow> store \<Rightarrow> tensor \<Rightarrow> tensor \<Rightarrow> real \<Rightarrow> error + expr list" where
  "pde_loss model \<sigma> x t C =
     bind_err (dfdx model \<sigma> x t 2) (\<lambda>dx.
       if C ^ 2 = 0 then Inl ZeroDivisionError
       else bind_err (dfdt model \<sigma> x t 2) (\<lambda>dt.
         broadcast2 Sub dx (map (\<lambda>e. Mul (Const (1 / C ^ 2)) e) dt)))"

text \<open>
  Lines 106 to 109, for the left boundary with \<open>i = 0\<close> and the tensor \<open>Local 0\<close>, for the
  right boundary with \<open>i = -1\<close> and the tensor \<open>Local 1\<close>:
  \<^verbatim>\<open>torch.ones_like(t_idx, requires_grad=True)\<close> is a new tracked leaf filled with
  ones; it is multiplied by \<^verbatim>\<open>x[i]\<close>, and the network is evaluated on the product and
  \<^verbatim>\<open>t_idx\<close>. Moving a tensor to the device does not change its values.
\<close>

definition boundary_loss :: "model \<Rightarrow> store \<Rightarrow> tid \<Rightarrow> tensor \<Rightarrow> tensor \<Rightarrow> int \<Rightarrow> error + (store \<times> expr list)" where
  "boundary_loss model \<sigma> k x t_idx i =
     (let \<sigma>' = \<sigma>(k := \<lambda>j. 1);
          ones = \<lparr>tid = k, numel = numel t_idx, requires_grad = True\<rparr>
      in bind_err (select \<sigma>' x i) (\<lambda>xi.
         bind_err (broadcast2 Mul (elems \<sigma>' ones) xi) (\<lambda>boundary.
         bind_err (model boundary (elems \<sigma>' t_idx)) (\<lambda>r. Inr (\<sigma>', r)))))"

text \<open>
  Lines 112 to 116: \<^verbatim>\<open>t_initial\<close> is the new leaf \<open>Local 2\<close>, filled with zeros and then
  marked as requiring grad before the network reads it.
\<close>

definition initial_loss :: "model \<Rightarrow> store \<Rightarrow> tensor \<Rightarrow> error + (store \<times> expr list \<times> expr list)" where
  "initial_loss model \<sigma> x_idx =
     (let f_initial = initial_condition (elems \<sigma> x_idx);
          \<sigma>' = \<sigma>(Local 2 := \<lambda>j. 0);
          t_initial = \<lparr>tid = Local 2, numel = numel x_idx, requires_grad = True\<rparr>
      in bind_err (model (elems \<sigma>' x_idx) (elems \<sigma>' t_initial)) (\<lambda>f0.
         bind_err (broadcast2 Sub f0 f_initial) (\<lambda>initial_loss_f.
         bind_err (dfdt model \<sigma>' x_idx t_initial 1) (\<lambda>initial_loss_df.
           Inr (\<sigma>', initial_loss_f, initial_loss_df)))))"

text \<open>The five residuals of lines 103 to 116, in the order the program computes them.\<close>

definition residuals ::
  "model \<Rightarrow> store \<Rightarrow> tensor \<Rightarrow> tensor \<Rightarrow> tensor \<Rightarrow> tensor \<Rightarrow> real
     \<Rightarrow> error + (store \<times> expr list \<times> expr list \<times> expr list \<times> expr list \<times> expr list)" where
  "residuals model \<sigma> x t x_idx t_idx C =
     bind_err (pde_loss model \<sigma> x t C) (\<lambda>pde.
     bind_err (boundary_loss model \<sigma> (Local 0) x t_idx 0) (\<lambda>(\<sigma>1, bx0).
     bind_err (boundary_loss model \<sigma>1 (Local 1) x t_idx (- 1)) (\<lambda>(\<sigma>2, bx1).
     bind_err (initial_loss model \<sigma>2 x_idx) (\<lambda>(\<sigma>3, init_f, init_df).
       Inr (\<sigma>3, pde, bx0, bx1, init_f, init_df)))))"

text \<open>Lines 119 to 126: each residual is squared and averaged, and the five means are added.\<close>

definition final_loss :: "expr list \<Rightarrow> expr list \<Rightarrow> expr list \<Rightarrow> expr list \<Rightarrow> expr list \<Rightarrow> error + expr" where
  "final_loss pde bx0 bx1 init_f init_df =
     bind_err (pow2_mean pde) (\<lambda>m1.
     bind_err (pow2_mean bx0) (\<lambda>m2.
     bind_err (pow2_mean bx1) (\<lambda>m3.
     bind_err (pow2_mean init_f) (\<lambda>m4.
     bind_err (pow2_mean init_df) (\<lambda>m5.
       Inr (Add (Add (Add (Add m1 m2) m3) m4) m5))))))"

definition compute_loss ::
  "model \<Rightarrow> store \<Rightarrow> tensor \<Rightarrow> tensor \<Rightarrow> tensor \<Rightarrow> tensor \<Rightarrow> real \<Rightarrow> error + (store \<times> expr)" where
  "compute_loss model \<sigma> x t x_idx t_idx C =
     bind_err (residuals model \<sigma> x t x_idx t_idx C) (\<lambda>(\<sigma>', pde, bx0, bx1, init_f, init_df).
     bind_err (final_loss pde bx0 bx1 init_f init_df) (\<lambda>l. Inr (\<sigma>', l)))"


section \<open>The collocation grid\<close>

text \<open>
  \<^verbatim>\<open>torch.linspace(start, end, steps)\<close>: \<open>steps\<close> values from \<open>start\<close> to \<open>end\<close> at equal
  distance; one step gives \<open>start\<close> alone. \<^verbatim>\<open>torch.meshgrid(a, b, indexing="ij")\<close>: two
  matrices with a row for each element of \<open>a\<close> and a column for each element of \<open>b\<close>, the
  first repeating \<open>a\<close> along its rows and the second holding \<open>b\<close> in every row.
  \<^verbatim>\<open>flatten\<close> reads a matrix row by row.
\<close>

definition linspace :: "real \<Rightarrow> real \<Rightarrow> nat \<Rightarrow> real list" where
  "linspace start stop steps =
     (if steps = 1 then [start]
      else map (\<lambda>i. start + real i * ((stop - start) / real (steps - 1))) [0..<steps])"

definition meshgrid_ij :: "real list \<Rightarrow> real list \<Rightarrow> real list list \<times> real list list" where
  "meshgrid_ij a b = (map (\<lambda>u. replicate (length b) u) a, replicate (length a) b)"

definition flatten :: "real list list \<Rightarrow> real list" where
  "flatten m = concat m"

definition from_list :: "real list \<Rightarrow> nat \<Rightarrow> real" where
  "from_list vs j = (if j < length vs then vs ! j else 0)"

definition contents :: "store \<Rightarrow> tensor \<Rightarrow> real list" where
  "contents \<sigma> h = map (\<sigma> (tid h)) [0..<numel h]"

text \<open>
  Lines 131 to 137, with the domains and counts as arguments. The two
  \<^verbatim>\<open>linspace\<close> tensors are created with \<^verbatim>\<open>requires_grad=True\<close>, and the reshaped and
  flattened tensors made from them require grad with them. The result is the store and
  the tensors \<^verbatim>\<open>x\<close>, \<^verbatim>\<open>t\<close>, \<^verbatim>\<open>x_idx\<close>, \<^verbatim>\<open>t_idx\<close> that the training loop passes on.
\<close>

definition grid_construction ::
  "real \<Rightarrow> real \<Rightarrow> nat \<Rightarrow> real \<Rightarrow> real \<Rightarrow> nat \<Rightarrow> store \<Rightarrow> store \<times> tensor \<times> tensor \<times> tensor \<times> tensor" where
  "grid_construction x0 x1 n_points_x t0 t1 n_points_t \<sigma> =
     (let xs = linspace x0 x1 n_points_x;
          ts = linspace t0 t1 n_points_t;
          grids = meshgrid_ij xs ts;
          xg = flatten (fst grids);
          tg = flatten (snd grids);
          \<sigma>' = \<sigma>(Input 0 := from_list xs, Input 1 := from_list ts,
                  Input 2 := from_list xg, Input 3 := from_list tg)
      in (\<sigma>',
          \<lparr>tid = Input 2, numel = length xg, requires_grad = True\<rparr>,
          \<lparr>tid = Input 3, numel = length tg, requires_grad = True\<rparr>,
          \<lparr>tid = Input 0, numel = length xs, requires_grad = True\<rparr>,
          \<lparr>tid = Input 1, numel = length ts, requires_grad = True\<rparr>))"

section \<open>The training loop\<close>

text \<open>
  Lines 143 to 154. The optimizer is a collaborator of the program: its update is the
  argument \<open>adam\<close>, from the optimizer's state, the parameters and their gradients to
  the new state and parameters. The formatting of a floating-point number by
  \<^verbatim>\<open>:>7f\<close> is the argument \<open>fmt\<close>. The state records the calls made so far, in order.
\<close>

datatype call = ComputeLoss | ZeroGrad | Backward | Step | Print string

record 'o state =
  theta :: params
  grads :: params
  opt :: 'o
  heap :: store
  calls :: "call list"

fun str_nat :: "nat \<Rightarrow> string" where
  "str_nat n = (if n < 10 then [''0123456789'' ! n] else str_nat (n div 10) @ [''0123456789'' ! (n mod 10)])"

definition progress_line :: "(real \<Rightarrow> string) \<Rightarrow> nat \<Rightarrow> real \<Rightarrow> string" where
  "progress_line fmt ep loss = ''epoch: '' @ str_nat ep @ '', loss: '' @ fmt loss"

text \<open>
  One pass of the loop body. \<^verbatim>\<open>loss.backward()\<close> adds to the gradient of each parameter
  what one reverse-mode pass from the loss, seeded with 1, brings to it.
\<close>

definition epoch ::
  "('o \<Rightarrow> params \<Rightarrow> params \<Rightarrow> 'o \<times> params) \<Rightarrow> (real \<Rightarrow> string)
     \<Rightarrow> tensor \<Rightarrow> tensor \<Rightarrow> tensor \<Rightarrow> tensor \<Rightarrow> nat \<Rightarrow> 'o state \<Rightarrow> error + 'o state" where
  "epoch adam fmt x t x_idx t_idx ep s =
     bind_err (compute_loss forward (heap s) x t x_idx t_idx 1) (\<lambda>(\<sigma>', loss).
       let s1 = s\<lparr>heap := \<sigma>', calls := calls s @ [ComputeLoss]\<rparr>;
           s2 = s1\<lparr>grads := \<lambda>p. 0, calls := calls s1 @ [ZeroGrad]\<rparr>;
           s3 = s2\<lparr>grads := \<lambda>p. grads s2 p
                        + eval (theta s2) \<sigma>' (sum_expr (arriving (Param p) (bp (Const 1) loss))),
                    calls := calls s2 @ [Backward]\<rparr>;
           (o', \<theta>') = adam (opt s3) (theta s3) (grads s3);
           s4 = s3\<lparr>theta := \<theta>', opt := o', calls := calls s3 @ [Step]\<rparr>
       in Inr (if ep mod 300 = 0
               then s4\<lparr>calls := calls s4 @ [Print (progress_line fmt ep (eval (theta s) \<sigma>' loss))]\<rparr>
               else s4))"

fun run_epochs ::
  "('o \<Rightarrow> params \<Rightarrow> params \<Rightarrow> 'o \<times> params) \<Rightarrow> (real \<Rightarrow> string)
     \<Rightarrow> tensor \<Rightarrow> tensor \<Rightarrow> tensor \<Rightarrow> tensor \<Rightarrow> nat list \<Rightarrow> 'o state \<Rightarrow> error + 'o state" where
  "run_epochs adam fmt x t x_idx t_idx [] s = Inr s"
| "run_epochs adam fmt x t x_idx t_idx (ep # eps) s =
     bind_err (epoch adam fmt x t x_idx t_idx ep s) (run_epochs adam fmt x t x_idx t_idx eps)"

text \<open>
  The script from line 128 on: the grid over \<open>[0,1] \<times> [0,1]\<close> with 100 and 150 points,
  then \<^verbatim>\<open>for ep in range(3000)\<close>. The initial parameters of the network, drawn at
  random by its constructor, and the initial state of the optimizer are arguments.
\<close>

definition train ::
  "('o \<Rightarrow> params \<Rightarrow> params \<Rightarrow> 'o \<times> params) \<Rightarrow> (real \<Rightarrow> string) \<Rightarrow> params \<Rightarrow> 'o \<Rightarrow> store
     \<Rightarrow> error + 'o state" where
  "train adam fmt \<theta>0 o0 \<sigma>0 =
     (let (\<sigma>, x, t, x_idx, t_idx) = grid_construction 0 1 100 0 1 150 \<sigma>0
      in run_epochs adam fmt x t x_idx t_idx [0..<3000]
           \<lparr>theta = \<theta>0, grads = \<lambda>p. 0, opt = o0, heap = \<sigma>, calls = []\<rparr>)"

section \<open>The field function and its derivatives\<close>

text \<open>
  The function of two real arguments that the network computes under the parameter
  values \<open>\<theta>\<close>: the \<open>f(x, t)\<close> of the comments of the program.
\<close>

definition Linear_val :: "params \<Rightarrow> nat \<Rightarrow> nat \<Rightarrow> nat \<Rightarrow> real list \<Rightarrow> real list" where
  "Linear_val \<theta> l n_in n_out v =
     map (\<lambda>u. (\<Sum>k\<leftarrow>[0..<n_in]. v ! k * \<theta> (W l u k)) + \<theta> (B l u)) [0..<n_out]"

definition net :: "params \<Rightarrow> real \<Rightarrow> real \<Rightarrow> real" where
  "net \<theta> a b =
     Linear_val \<theta> 6 16 1 (map tanh (Linear_val \<theta> 4 32 16 (map tanh
       (Linear_val \<theta> 2 16 32 (map tanh (Linear_val \<theta> 0 2 16 [a, b])))))) ! 0"

text \<open>
  The store with one element of one tensor changed, and the partial derivative of the
  value of a node by that element, by the rules of calculus.
\<close>

definition upd :: "store \<Rightarrow> tid \<Rightarrow> nat \<Rightarrow> real \<Rightarrow> store" where
  "upd \<sigma> k j v = \<sigma>(k := (\<sigma> k)(j := v))"

fun partial :: "params \<Rightarrow> store \<Rightarrow> tid \<Rightarrow> nat \<Rightarrow> expr \<Rightarrow> real" where
  "partial \<theta> \<sigma> k j (Const c) = 0"
| "partial \<theta> \<sigma> k j (Elem k' j') = (if k' = k \<and> j' = j then 1 else 0)"
| "partial \<theta> \<sigma> k j (Param p) = 0"
| "partial \<theta> \<sigma> k j (Add a b) = partial \<theta> \<sigma> k j a + partial \<theta> \<sigma> k j b"
| "partial \<theta> \<sigma> k j (Sub a b) = partial \<theta> \<sigma> k j a - partial \<theta> \<sigma> k j b"
| "partial \<theta> \<sigma> k j (Mul a b) = partial \<theta> \<sigma> k j a * eval \<theta> \<sigma> b + eval \<theta> \<sigma> a * partial \<theta> \<sigma> k j b"
| "partial \<theta> \<sigma> k j (Neg a) = - partial \<theta> \<sigma> k j a"
| "partial \<theta> \<sigma> k j (Tanh a) = (1 - (tanh (eval \<theta> \<sigma> a))\<^sup>2) * partial \<theta> \<sigma> k j a"
| "partial \<theta> \<sigma> k j (Sin a) = cos (eval \<theta> \<sigma> a) * partial \<theta> \<sigma> k j a"
| "partial \<theta> \<sigma> k j (Cos a) = - sin (eval \<theta> \<sigma> a) * partial \<theta> \<sigma> k j a"
| "partial \<theta> \<sigma> k j (Power a n) = real n * eval \<theta> \<sigma> a ^ (n - 1) * partial \<theta> \<sigma> k j a"

text \<open>\<open>mentions k j e\<close>: element \<open>j\<close> of the tracked tensor \<open>k\<close> is a leaf of the node.\<close>

fun mentions :: "tid \<Rightarrow> nat \<Rightarrow> expr \<Rightarrow> bool" where
  "mentions k j (Const c) = False"
| "mentions k j (Elem k' j') = (k' = k \<and> j' = j)"
| "mentions k j (Param p) = False"
| "mentions k j (Add a b) = (mentions k j a \<or> mentions k j b)"
| "mentions k j (Sub a b) = (mentions k j a \<or> mentions k j b)"
| "mentions k j (Mul a b) = (mentions k j a \<or> mentions k j b)"
| "mentions k j (Neg a) = mentions k j a"
| "mentions k j (Tanh a) = mentions k j a"
| "mentions k j (Sin a) = mentions k j a"
| "mentions k j (Cos a) = mentions k j a"
| "mentions k j (Power a n) = mentions k j a"


text \<open>
  \<open>rowwise k outs\<close>: row \<open>i\<close> of the output reads no row of the tensor \<open>k\<close> but row \<open>i\<close>
  (no coupling across the batch). \<open>no_pow0 e\<close>: no zeroth power in the node.
  \<open>tanh_guarded k j e\<close>: wherever element \<open>j\<close> of the tensor \<open>k\<close> is read, it is read
  inside a \<open>tanh\<close>.
\<close>

definition rowwise :: "tid \<Rightarrow> expr list \<Rightarrow> bool" where
  "rowwise k outs = (\<forall>i<length outs. \<forall>j. mentions k j (outs ! i) \<longrightarrow> j = i)"

fun no_pow0 :: "expr \<Rightarrow> bool" where
  "no_pow0 (Const c) = True"
| "no_pow0 (Elem k j) = True"
| "no_pow0 (Param p) = True"
| "no_pow0 (Add a b) = (no_pow0 a \<and> no_pow0 b)"
| "no_pow0 (Sub a b) = (no_pow0 a \<and> no_pow0 b)"
| "no_pow0 (Mul a b) = (no_pow0 a \<and> no_pow0 b)"
| "no_pow0 (Neg a) = no_pow0 a"
| "no_pow0 (Tanh a) = no_pow0 a"
| "no_pow0 (Sin a) = no_pow0 a"
| "no_pow0 (Cos a) = no_pow0 a"
| "no_pow0 (Power a n) = (n \<noteq> 0 \<and> no_pow0 a)"

fun tanh_guarded :: "tid \<Rightarrow> nat \<Rightarrow> expr \<Rightarrow> bool" where
  "tanh_guarded k j (Const c) = True"
| "tanh_guarded k j (Elem k' j') = (\<not> (k' = k \<and> j' = j))"
| "tanh_guarded k j (Param p) = True"
| "tanh_guarded k j (Add a b) = (tanh_guarded k j a \<and> tanh_guarded k j b)"
| "tanh_guarded k j (Sub a b) = (tanh_guarded k j a \<and> tanh_guarded k j b)"
| "tanh_guarded k j (Mul a b) = (tanh_guarded k j a \<and> tanh_guarded k j b)"
| "tanh_guarded k j (Neg a) = tanh_guarded k j a"
| "tanh_guarded k j (Tanh a) = no_pow0 a"
| "tanh_guarded k j (Sin a) = tanh_guarded k j a"
| "tanh_guarded k j (Cos a) = tanh_guarded k j a"
| "tanh_guarded k j (Power a n) = tanh_guarded k j a"

section \<open>Reference definitions\<close>

text \<open>The mean of the squares of a list of numbers.\<close>

definition mean_sq :: "real list \<Rightarrow> real" where
  "mean_sq vs = (\<Sum>v\<leftarrow>vs. v\<^sup>2) / real (length vs)"

text \<open>
  The derivative operation as the specification words it: \<open>order\<close> reverse-mode passes,
  each weighting the elements of the current output uniformly by one, so that the
  weights have the shape of the output.
\<close>

fun derivative_loop :: "nat \<Rightarrow> expr list \<Rightarrow> tensor \<Rightarrow> error + expr list" where
  "derivative_loop 0 v w = Inr v"
| "derivative_loop (Suc n) v w =
     (case autograd_grad v w (replicate (length v) (Const 1)) of
        Inl e \<Rightarrow> Inl e
      | Inr v' \<Rightarrow> derivative_loop n v' w)"

definition derivative :: "expr list \<Rightarrow> tensor \<Rightarrow> int \<Rightarrow> error + expr list" where
  "derivative output with_respect_to order = derivative_loop (nat order) output with_respect_to"

text \<open>
  The analytic function \<open>x\<^sup>2 * t\<^sup>3\<close> of the derivative-order test, written with the
  runtime's elementwise operators as \<^verbatim>\<open>x**2 * t**3\<close> and taking the place of the network.
\<close>

definition analytic :: model where
  "analytic x t =
     (if length x \<noteq> length t then Inl SizeMismatch
      else Inr (map2 (\<lambda>a b. Mul (Power a 2) (Power b 3)) x t))"

text \<open>
  The calls of one pass of the loop body in which the loss had the value \<open>v\<close>, and the
  lines printed among a list of calls.
\<close>

definition segment :: "(real \<Rightarrow> string) \<Rightarrow> nat \<Rightarrow> real \<Rightarrow> call list" where
  "segment fmt ep v = [ComputeLoss, ZeroGrad, Backward, Step]
     @ (if ep mod 300 = 0 then [Print (progress_line fmt ep v)] else [])"

fun printed :: "call list \<Rightarrow> string list" where
  "printed [] = []"
| "printed (Print l # cs) = l # printed cs"
| "printed (c # cs) = printed cs"

text \<open>
  What one pass of the loop body with epoch index \<open>ep\<close> makes of the state \<open>s\<close>: the loss
  is computed on the store of \<open>s\<close>; the gradients are those of this loss alone, by the
  parameters of \<open>s\<close>; the optimizer is called once on the state, the parameters and
  these gradients; and the four calls, with the line when one is due, are recorded.
\<close>

definition loop_pass ::
  "('o \<Rightarrow> params \<Rightarrow> params \<Rightarrow> 'o \<times> params) \<Rightarrow> (real \<Rightarrow> string)
     \<Rightarrow> tensor \<Rightarrow> tensor \<Rightarrow> tensor \<Rightarrow> tensor \<Rightarrow> nat \<Rightarrow> 'o state \<Rightarrow> 'o state \<Rightarrow> bool" where
  "loop_pass adam fmt x t x_idx t_idx ep s s' =
     (\<exists>\<sigma>' loss.
        compute_loss forward (heap s) x t x_idx t_idx 1 = Inr (\<sigma>', loss) \<and>
        heap s' = \<sigma>' \<and>
        grads s' = (\<lambda>p. eval (theta s) \<sigma>' (sum_expr (arriving (Param p) (bp (Const 1) loss)))) \<and>
        (opt s', theta s') = adam (opt s) (theta s) (grads s') \<and>
        calls s' = calls s @ [ComputeLoss, ZeroGrad, Backward, Step]
          @ (if ep mod 300 = 0
             then [Print (''epoch: '' @ str_nat ep @ '', loss: '' @ fmt (eval (theta s) \<sigma>' loss))]
             else []))"

section \<open>Reverse-mode passes compute derivatives\<close>

lemma eval_sum_expr: "eval \<theta> \<sigma> (sum_expr cs) = (\<Sum>c\<leftarrow>cs. eval \<theta> \<sigma> c)"
  by (induction cs rule: sum_expr.induct) simp_all

lemma arriving_Nil [simp]: "arriving l [] = []"
  by (simp add: arriving_def)

lemma arriving_append [simp]: "arriving l (a @ b) = arriving l a @ arriving l b"
  by (simp add: arriving_def)

lemma arriving_single [simp]: "arriving l [(l', c)] = (if l' = l then [c] else [])"
  by (simp add: arriving_def)

lemma upd_same [simp]: "upd \<sigma> k j v k j = v"
  by (simp add: upd_def)

lemma upd_other: "k' \<noteq> k \<or> j' \<noteq> j \<Longrightarrow> upd \<sigma> k j v k' j' = \<sigma> k' j'"
  by (auto simp: upd_def)

lemma upd_upd [simp]: "upd (upd \<sigma> k j v) k j u = upd \<sigma> k j u"
  by (simp add: upd_def fun_eq_iff)

lemma upd_id [simp]: "upd \<sigma> k j (\<sigma> k j) = \<sigma>"
  by (simp add: upd_def fun_eq_iff)

lemma deriv_sound:
  "((\<lambda>u. eval \<theta> (upd \<sigma> k j u) e) has_field_derivative partial \<theta> (upd \<sigma> k j v) k j e) (at v)"
proof (induction e)
  case (Elem k' j')
  show ?case
  proof (cases "k' = k \<and> j' = j")
    case True
    then show ?thesis by simp
  next
    case False
    then have "(\<lambda>u. eval \<theta> (upd \<sigma> k j u) (Elem k' j')) = (\<lambda>u. \<sigma> k' j')"
      by (auto simp: upd_def fun_eq_iff)
    with False show ?thesis by auto
  qed
next
  case (Tanh e)
  have "cosh (eval \<theta> (upd \<sigma> k j v) e) \<noteq> 0" by simp
  then show ?case using Tanh
    by (auto intro!: derivative_eq_intros simp: power2_eq_square)
next
  case (Power e n)
  then show ?case
    by (auto intro!: derivative_eq_intros)
qed (auto intro!: derivative_eq_intros)

lemma bp_sound:
  "(\<Sum>c\<leftarrow>arriving (Elem k j) (bp g e). eval \<theta> \<sigma> c) = eval \<theta> \<sigma> g * partial \<theta> \<sigma> k j e"
  by (induction e arbitrary: g) (auto simp: algebra_simps power2_eq_square)

lemma partial_zero: "\<not> mentions k j e \<Longrightarrow> partial \<theta> \<sigma> k j e = 0"
  by (induction e) auto

lemma bp_fst: "(l, c) \<in> set (bp g e) \<Longrightarrow> l = Elem k j \<Longrightarrow> mentions k j e"
  by (induction e arbitrary: g) (auto split: if_splits)

lemma bp_snd: "(l, c) \<in> set (bp g e) \<Longrightarrow> mentions k j c \<Longrightarrow> mentions k j g \<or> mentions k j e"
  by (induction e arbitrary: g) (fastforce split: if_splits)+



lemma uses_mentions: "uses k e = (\<exists>j. mentions k j e)"
  by (induction e) auto

lemma mentions_sum_expr: "mentions k j (sum_expr cs) = (\<exists>c\<in>set cs. mentions k j c)"
  by (induction cs rule: sum_expr.induct) auto

lemma needs_grad_sum_expr: "needs_grad (sum_expr cs) = (\<exists>c\<in>set cs. needs_grad c)"
  by (induction cs rule: sum_expr.induct) auto

lemma mentions_needs_grad: "mentions k j e \<Longrightarrow> needs_grad e"
  by (induction e) auto

lemma arriving_empty: "\<not> mentions k j e \<Longrightarrow> arriving (Elem k j) (bp g e) = []"
proof -
  assume a: "\<not> mentions k j e"
  have "\<forall>lc\<in>set (bp g e). fst lc \<noteq> Elem k j"
    using a bp_fst by fastforce
  then show ?thesis
    by (simp add: arriving_def filter_False)
qed

lemma arriving_concat: "arriving l (concat xss) = concat (map (arriving l) xss)"
  by (induction xss) simp_all

lemma concat_single:
  "j < length xs \<Longrightarrow> (\<forall>i<length xs. i \<noteq> j \<longrightarrow> f (xs ! i) = []) \<Longrightarrow> concat (map f xs) = f (xs ! j)"
proof (induction xs arbitrary: j)
  case Nil
  then show ?case by simp
next
  case (Cons x xs)
  show ?case
  proof (cases j)
    case 0
    have "\<forall>y\<in>set xs. f y = []"
    proof
      fix y assume "y \<in> set xs"
      then obtain i where "i < length xs" "xs ! i = y" by (auto simp: in_set_conv_nth)
      with Cons.prems(2) [rule_format, of "Suc i"] 0 show "f y = []" by simp
    qed
    then have "concat (map f xs) = []" by simp
    with 0 show ?thesis by simp
  next
    case (Suc j')
    have "f x = []" using Cons.prems(2) [rule_format, of 0] Suc by simp
    moreover have "concat (map f xs) = f (xs ! j')"
    proof (rule Cons.IH)
      show "j' < length xs" using Cons.prems(1) Suc by simp
      show "\<forall>i<length xs. i \<noteq> j' \<longrightarrow> f (xs ! i) = []"
        using Cons.prems(2) [rule_format, of "Suc i" for i] Suc by auto
    qed
    ultimately show ?thesis using Suc by simp
  qed
qed

lemma arriving_rowwise:
  assumes "rowwise k outs" "length gos = length outs" "j < length outs"
  shows "arriving (Elem k j) (concat (map2 bp gos outs)) = arriving (Elem k j) (bp (gos ! j) (outs ! j))"
proof -
  let ?f = "\<lambda>ge. arriving (Elem k j) (bp (fst ge) (snd ge))"
  have "arriving (Elem k j) (concat (map2 bp gos outs)) = concat (map ?f (zip gos outs))"
    by (simp add: arriving_concat case_prod_beta comp_def)
  also have "\<dots> = ?f (zip gos outs ! j)"
  proof (rule concat_single)
    show "j < length (zip gos outs)" using assms by simp
    show "\<forall>i<length (zip gos outs). i \<noteq> j \<longrightarrow> ?f (zip gos outs ! i) = []"
    proof (intro allI impI)
      fix i assume i: "i < length (zip gos outs)" "i \<noteq> j"
      then have "\<not> mentions k j (outs ! i)"
        using assms(1) by (auto simp: rowwise_def)
      then show "?f (zip gos outs ! i) = []"
        using i assms(2) by (simp add: arriving_empty)
    qed
  qed
  finally show ?thesis using assms by simp
qed

lemma autograd_grad_InrD:
  "autograd_grad outs h gos = Inr r \<Longrightarrow>
     length gos = length outs \<and> requires_grad h \<and> list_ex needs_grad outs \<and> list_ex (uses (tid h)) outs \<and>
     r = map (\<lambda>j. sum_expr (arriving (Elem (tid h) j) (concat (map2 bp gos outs)))) [0..<numel h]"
  by (auto simp: autograd_grad_def split: if_splits)

text \<open>One pass with the all-ones weighting, on an output whose row i reads only row i of the input.\<close>

lemma pass_rowwise:
  assumes "autograd_grad outs h (ones_like h) = Inr r" "rowwise (tid h) outs"
  shows "length outs = numel h" "length r = numel h" "rowwise (tid h) r"
    "\<And>j. j < numel h \<Longrightarrow> r ! j = sum_expr (arriving (Elem (tid h) j) (bp (Const 1) (outs ! j)))"
    "\<And>j \<theta> \<sigma>. j < numel h \<Longrightarrow> eval \<theta> \<sigma> (r ! j) = partial \<theta> \<sigma> (tid h) j (outs ! j)"
proof -
  note D = autograd_grad_InrD [OF assms(1)]
  show len: "length outs = numel h" using D by (simp add: ones_like_def)
  show "length r = numel h" using D by simp
  show nth: "r ! j = sum_expr (arriving (Elem (tid h) j) (bp (Const 1) (outs ! j)))" if "j < numel h" for j
  proof -
    have "r ! j = sum_expr (arriving (Elem (tid h) j) (concat (map2 bp (ones_like h) outs)))"
      using D that by simp
    also have "arriving (Elem (tid h) j) (concat (map2 bp (ones_like h) outs))
        = arriving (Elem (tid h) j) (bp (ones_like h ! j) (outs ! j))"
      using assms(2) len that by (intro arriving_rowwise) (simp_all add: ones_like_def)
    finally show ?thesis using that by (simp add: ones_like_def)
  qed
  show "eval \<theta> \<sigma> (r ! j) = partial \<theta> \<sigma> (tid h) j (outs ! j)" if "j < numel h" for j \<theta> \<sigma>
    using bp_sound [of \<theta> \<sigma> "tid h" j "Const 1" "outs ! j"] by (simp add: nth [OF that] eval_sum_expr)
  show "rowwise (tid h) r"
    unfolding rowwise_def
  proof (intro allI impI)
    fix i j assume i: "i < length r" and m: "mentions (tid h) j (r ! i)"
    have i': "i < numel h" using i D by simp
    from m obtain c where "c \<in> set (arriving (Elem (tid h) i) (bp (Const 1) (outs ! i)))" "mentions (tid h) j c"
      by (auto simp: nth [OF i'] mentions_sum_expr)
    then obtain l where "(l, c) \<in> set (bp (Const 1) (outs ! i))"
      by (auto simp: arriving_def)
    with \<open>mentions (tid h) j c\<close> have "mentions (tid h) j (outs ! i)"
      using bp_snd by fastforce
    then show "j = i" using assms(2) i' len by (auto simp: rowwise_def)
  qed
qed

lemma df_2_InrD:
  "df outs h 2 = Inr r2 \<Longrightarrow> \<exists>r1. autograd_grad outs h (ones_like h) = Inr r1 \<and> autograd_grad r1 h (ones_like h) = Inr r2"
  by (auto simp: df_def numeral_2_eq_2 split: sum.splits)

lemma df_1_InrD:
  "df outs h 1 = Inr r1 \<Longrightarrow> autograd_grad outs h (ones_like h) = Inr r1"
  by (auto simp: df_def split: sum.splits)

lemma df_second_derivative:
  assumes "df outs h 2 = Inr r2" "rowwise (tid h) outs" "j < numel h"
  shows "\<exists>d1. (\<forall>v. ((\<lambda>u. eval \<theta> (upd \<sigma> (tid h) j u) (outs ! j)) has_field_derivative d1 v) (at v))
            \<and> (d1 has_field_derivative eval \<theta> \<sigma> (r2 ! j)) (at (\<sigma> (tid h) j))"
proof -
  from df_2_InrD [OF assms(1)] obtain r1 where
    p1: "autograd_grad outs h (ones_like h) = Inr r1" and p2: "autograd_grad r1 h (ones_like h) = Inr r2"
    by blast
  note P1 = pass_rowwise [OF p1 assms(2)]
  note P2 = pass_rowwise [OF p2 P1(3)]
  let ?d1 = "\<lambda>u. partial \<theta> (upd \<sigma> (tid h) j u) (tid h) j (outs ! j)"
  have a: "\<forall>v. ((\<lambda>u. eval \<theta> (upd \<sigma> (tid h) j u) (outs ! j)) has_field_derivative ?d1 v) (at v)"
    using deriv_sound by blast
  have "((\<lambda>u. eval \<theta> (upd \<sigma> (tid h) j u) (r1 ! j)) has_field_derivative
           partial \<theta> (upd \<sigma> (tid h) j (\<sigma> (tid h) j)) (tid h) j (r1 ! j)) (at (\<sigma> (tid h) j))"
    by (rule deriv_sound)
  then have b: "(?d1 has_field_derivative eval \<theta> \<sigma> (r2 ! j)) (at (\<sigma> (tid h) j))"
    using P1(5) [OF assms(3)] P2(5) [OF assms(3)] by simp
  show ?thesis
    by (rule exI [of _ ?d1]) (use a b in simp)
qed


subsection \<open>Passes that succeed\<close>

lemma bp_reaches: "mentions k j e \<Longrightarrow> \<exists>c. (Elem k j, c) \<in> set (bp g e)"
  by (induction e arbitrary: g) auto

lemma bp_keeps_gradient:
  "(l, c) \<in> set (bp g e) \<Longrightarrow> no_pow0 e \<Longrightarrow> mentions k j g \<Longrightarrow> mentions k j c"
  by (induction e arbitrary: g) (auto split: if_splits)

lemma bp_guarded:
  "(Elem k j, c) \<in> set (bp g e) \<Longrightarrow> tanh_guarded k j e \<Longrightarrow> mentions k j c"
proof (induction e arbitrary: g)
  case (Tanh e)
  then have "mentions k j e" using bp_fst by fastforce
  with Tanh.prems show ?case
    using bp_keeps_gradient [of "Elem k j" c _ e k j] by simp
qed (auto split: if_splits)

lemma arrived_mentions:
  assumes "mentions k j e" "tanh_guarded k j e"
  shows "mentions k j (sum_expr (arriving (Elem k j) (bp g e)))"
proof -
  from bp_reaches [OF assms(1)] obtain c where c: "(Elem k j, c) \<in> set (bp g e)" by blast
  then have "c \<in> set (arriving (Elem k j) (bp g e))"
    by (force simp: arriving_def)
  moreover have "mentions k j c" using c assms(2) by (rule bp_guarded)
  ultimately show ?thesis by (auto simp: mentions_sum_expr)
qed

lemma list_ex_nth: "i < length xs \<Longrightarrow> P (xs ! i) \<Longrightarrow> list_ex P xs"
  by (auto simp: list_ex_iff)

lemma pass_ok:
  assumes "requires_grad h" "length outs = numel h" "0 < numel h" "mentions (tid h) 0 (outs ! 0)"
  shows "autograd_grad outs h (ones_like h)
           = Inr (map (\<lambda>j. sum_expr (arriving (Elem (tid h) j) (concat (map2 bp (ones_like h) outs)))) [0..<numel h])"
proof -
  have "list_ex needs_grad outs"
    using assms by (intro list_ex_nth [of 0]) (auto intro: mentions_needs_grad)
  moreover have "list_ex (uses (tid h)) outs"
    using assms by (intro list_ex_nth [of 0]) (auto simp: uses_mentions)
  ultimately show ?thesis
    using assms by (simp add: autograd_grad_def ones_like_def)
qed

lemma df_1_ok:
  assumes "requires_grad h" "length outs = numel h" "0 < numel h" "mentions (tid h) 0 (outs ! 0)"
  shows "\<exists>r. df outs h 1 = Inr r"
  using pass_ok [OF assms] by (simp add: df_def)

lemma df_2_ok:
  assumes "requires_grad h" "length outs = numel h" "0 < numel h" "rowwise (tid h) outs"
    "mentions (tid h) 0 (outs ! 0)" "tanh_guarded (tid h) 0 (outs ! 0)"
  shows "\<exists>r. df outs h 2 = Inr r"
proof -
  from pass_ok [OF assms(1,2,3,5)] obtain r1 where r1: "autograd_grad outs h (ones_like h) = Inr r1"
    by blast
  note P1 = pass_rowwise [OF r1 assms(4)]
  have "mentions (tid h) 0 (r1 ! 0)"
    using assms(3,5,6) by (simp add: P1(4) arrived_mentions)
  from pass_ok [OF assms(1) P1(2) assms(3) this] obtain r2 where "autograd_grad r1 h (ones_like h) = Inr r2"
    by blast
  with r1 show ?thesis by (simp add: df_def numeral_2_eq_2)
qed

subsection \<open>The network\<close>

lemma bex_set_nth: "(\<exists>e\<in>set xs. P e) = (\<exists>i<length xs. P (xs ! i))"
  by (metis in_set_conv_nth)

lemma ball_set_nth: "(\<forall>e\<in>set xs. P e) = (\<forall>i<length xs. P (xs ! i))"
  by (metis in_set_conv_nth)

lemma length_Linear [simp]: "length (Linear l n_in n_out inp) = n_out"
  by (simp add: Linear_def)

lemma nth_Linear:
  "u < n_out \<Longrightarrow> Linear l n_in n_out inp ! u
     = Add (sum_expr (map (\<lambda>k. Mul (inp ! k) (Param (W l u k))) [0..<n_in])) (Param (B l u))"
  by (simp add: Linear_def)

lemma mentions_Linear:
  assumes "length inp = n_in" "u < n_out"
  shows "mentions k j (Linear l n_in n_out inp ! u) = (\<exists>e\<in>set inp. mentions k j e)"
proof -
  have "mentions k j (Linear l n_in n_out inp ! u) = (\<exists>i<n_in. mentions k j (inp ! i))"
    using assms(2) by (auto simp: nth_Linear mentions_sum_expr)
  also have "\<dots> = (\<exists>e\<in>set inp. mentions k j e)"
    using assms(1) by (simp add: bex_set_nth)
  finally show ?thesis .
qed

lemma any_mentions_Linear:
  assumes "length inp = n_in" "0 < n_out"
  shows "(\<exists>e\<in>set (Linear l n_in n_out inp). mentions k j e) = (\<exists>e\<in>set inp. mentions k j e)"
proof -
  have "\<And>u. u < n_out \<Longrightarrow> mentions k j (Linear l n_in n_out inp ! u) = (\<exists>e\<in>set inp. mentions k j e)"
    by (rule mentions_Linear [OF assms(1)])
  then show ?thesis
    using assms(2) by (auto simp: bex_set_nth)
qed

lemma mentions_forward_row:
  "mentions k j (forward_row a b) = (mentions k j a \<or> mentions k j b)"
  by (simp add: forward_row_def linear_tanh_stack_def mentions_Linear any_mentions_Linear)

lemma no_pow0_sum_expr: "no_pow0 (sum_expr cs) = (\<forall>c\<in>set cs. no_pow0 c)"
  by (induction cs rule: sum_expr.induct) auto

lemma tanh_guarded_sum_expr: "tanh_guarded k j (sum_expr cs) = (\<forall>c\<in>set cs. tanh_guarded k j c)"
  by (induction cs rule: sum_expr.induct) auto

lemma no_pow0_Linear:
  assumes "length inp = n_in" "\<forall>e\<in>set inp. no_pow0 e"
  shows "\<forall>e\<in>set (Linear l n_in n_out inp). no_pow0 e"
  using assms by (auto simp: Linear_def no_pow0_sum_expr ball_set_nth)

lemma no_pow0_tanh_Linear:
  assumes "length inp = n_in" "\<forall>e\<in>set inp. no_pow0 e"
  shows "\<forall>e\<in>set (map Tanh (Linear l n_in n_out inp)). no_pow0 e"
  using no_pow0_Linear [OF assms] by auto

lemma tanh_guarded_forward_row:
  assumes "no_pow0 a" "no_pow0 b"
  shows "tanh_guarded k j (forward_row a b)"
proof -
  let ?h1 = "map Tanh (Linear 0 2 16 [a, b])"
  let ?h2 = "map Tanh (Linear 2 16 32 ?h1)"
  let ?h3 = "Linear 4 32 16 ?h2"
  have h1: "\<forall>e\<in>set ?h1. no_pow0 e"
    by (rule no_pow0_tanh_Linear) (use assms in auto)
  have h2: "\<forall>e\<in>set ?h2. no_pow0 e"
    by (rule no_pow0_tanh_Linear) (use h1 in auto)
  have "\<forall>e\<in>set ?h3. no_pow0 e"
    by (rule no_pow0_Linear) (use h2 in auto)
  then have "\<forall>u<16. no_pow0 (?h3 ! u)" by (simp add: ball_set_nth)
  then show ?thesis
    by (simp add: forward_row_def linear_tanh_stack_def nth_Linear tanh_guarded_sum_expr)
qed

lemma needs_grad_forward_row: "needs_grad (forward_row a b)"
  by (simp add: forward_row_def linear_tanh_stack_def nth_Linear)

lemma eval_Linear:
  "length inp = n_in \<Longrightarrow> map (eval \<theta> \<sigma>) (Linear l n_in n_out inp) = Linear_val \<theta> l n_in n_out (map (eval \<theta> \<sigma>) inp)"
  by (auto simp: Linear_def Linear_val_def eval_sum_expr comp_def intro!: arg_cong [where f = sum_list])

lemma eval_tanh_map: "map (eval \<theta> \<sigma>) (map Tanh es) = map tanh (map (eval \<theta> \<sigma>) es)"
  by simp

lemma eval_forward_row: "eval \<theta> \<sigma> (forward_row a b) = net \<theta> (eval \<theta> \<sigma> a) (eval \<theta> \<sigma> b)"
proof -
  have "eval \<theta> \<sigma> (forward_row a b) = map (eval \<theta> \<sigma>) (linear_tanh_stack [a, b]) ! 0"
    by (simp add: forward_row_def linear_tanh_stack_def)
  also have "map (eval \<theta> \<sigma>) (linear_tanh_stack [a, b])
      = Linear_val \<theta> 6 16 1 (map tanh (Linear_val \<theta> 4 32 16 (map tanh
          (Linear_val \<theta> 2 16 32 (map tanh (Linear_val \<theta> 0 2 16 [eval \<theta> \<sigma> a, eval \<theta> \<sigma> b]))))))"
    unfolding linear_tanh_stack_def
    by (simp only: eval_Linear eval_tanh_map length_map length_Linear list.map list.size)
  finally show ?thesis by (simp add: net_def)
qed

section \<open>The network under the differentiation engine\<close>

lemma length_elems [simp]: "length (elems \<sigma> h) = numel h"
  by (simp add: elems_def)

lemma nth_elems:
  "i < numel h \<Longrightarrow> elems \<sigma> h ! i = (if requires_grad h then Elem (tid h) i else Const (\<sigma> (tid h) i))"
  by (simp add: elems_def)

lemma eval_nth_elems: "i < numel h \<Longrightarrow> eval \<theta> \<sigma> (elems \<sigma> h ! i) = \<sigma> (tid h) i"
  by (simp add: nth_elems)

lemma mentions_nth_elems:
  "i < numel h \<Longrightarrow> mentions k j (elems \<sigma> h ! i) = (requires_grad h \<and> tid h = k \<and> i = j)"
  by (auto simp: nth_elems)

lemma no_pow0_nth_elems: "i < numel h \<Longrightarrow> no_pow0 (elems \<sigma> h ! i)"
  by (simp add: nth_elems)

lemma forward_Inr: "length xs = length ts \<Longrightarrow> forward xs ts = Inr (map2 forward_row xs ts)"
  by (simp add: forward_def)

lemma nth_map2_forward_row:
  "i < length xs \<Longrightarrow> i < length ts \<Longrightarrow> map2 forward_row xs ts ! i = forward_row (xs ! i) (ts ! i)"
  by simp

lemma rowwise_forward_elems:
  assumes "numel x = numel t"
  shows "rowwise k (map2 forward_row (elems \<sigma> x) (elems \<sigma> t))"
  using assms by (auto simp: rowwise_def mentions_forward_row mentions_nth_elems)

text \<open>The second derivative of the network output by a tracked input tensor.\<close>

lemma df_2_forward_ok:
  assumes "requires_grad h" "numel x = numel t" "0 < numel h" "numel h = numel x" "h = x \<or> h = t"
  shows "\<exists>r. df (map2 forward_row (elems \<sigma> x) (elems \<sigma> t)) h 2 = Inr r"
proof (rule df_2_ok)
  let ?f = "map2 forward_row (elems \<sigma> x) (elems \<sigma> t)"
  show "requires_grad h" by fact
  show "length ?f = numel h" using assms by simp
  show "0 < numel h" by fact
  show "rowwise (tid h) ?f" using assms(2) by (rule rowwise_forward_elems)
  show "mentions (tid h) 0 (?f ! 0)"
    using assms by (auto simp: mentions_forward_row mentions_nth_elems)
  show "tanh_guarded (tid h) 0 (?f ! 0)"
    using assms by (auto simp: tanh_guarded_forward_row no_pow0_nth_elems)
qed

lemma eval_forward_upd_x:
  assumes "requires_grad x" "tid x \<noteq> tid t" "i < numel x" "i < numel t"
  shows "eval \<theta> (upd \<sigma> (tid x) i u) (forward_row (elems \<sigma> x ! i) (elems \<sigma> t ! i)) = net \<theta> u (\<sigma> (tid t) i)"
  using assms by (simp add: eval_forward_row nth_elems upd_def)

lemma eval_forward_upd_t:
  assumes "requires_grad t" "tid x \<noteq> tid t" "i < numel x" "i < numel t"
  shows "eval \<theta> (upd \<sigma> (tid t) i u) (forward_row (elems \<sigma> x ! i) (elems \<sigma> t ! i)) = net \<theta> (\<sigma> (tid x) i) u"
  using assms by (simp add: eval_forward_row nth_elems upd_def)

lemma bind_err_Inr [simp]: "bind_err (Inr v) f = f v"
  by (simp add: bind_err_def)

lemma bind_err_Inl [simp]: "bind_err (Inl e) f = Inl e"
  by (simp add: bind_err_def)

lemma broadcast2_same: "length a = length b \<Longrightarrow> broadcast2 f a b = Inr (map2 f a b)"
  by (simp add: broadcast2_def)

section \<open>The parts of the loss\<close>

lemma bind_err_InrD: "bind_err m f = Inr r \<Longrightarrow> \<exists>v. m = Inr v \<and> f v = Inr r"
  by (cases m) simp_all

lemma pow2_mean_Inr: "v \<noteq> [] \<Longrightarrow> pow2_mean v = Inr (Mul (sum_expr (map (\<lambda>e. Power e 2) v)) (Const (1 / real (length v))))"
  by (simp add: pow2_mean_def mean_def)

lemma pow2_mean_InrD:
  "pow2_mean v = Inr m \<Longrightarrow> v \<noteq> [] \<and> (\<forall>\<theta> \<sigma>. eval \<theta> \<sigma> m = mean_sq (map (eval \<theta> \<sigma>) v))"
  by (auto simp: pow2_mean_def mean_def mean_sq_def eval_sum_expr comp_def split: if_splits)

lemma final_loss_InrD:
  assumes "final_loss pde bx0 bx1 init_f init_df = Inr l"
  shows "eval \<theta> \<sigma> l = mean_sq (map (eval \<theta> \<sigma>) pde) + mean_sq (map (eval \<theta> \<sigma>) bx0)
           + mean_sq (map (eval \<theta> \<sigma>) bx1) + mean_sq (map (eval \<theta> \<sigma>) init_f)
           + mean_sq (map (eval \<theta> \<sigma>) init_df)"
    and "pde \<noteq> []" "bx0 \<noteq> []" "bx1 \<noteq> []" "init_f \<noteq> []" "init_df \<noteq> []"
proof -
  from assms obtain m1 where m1: "pow2_mean pde = Inr m1"
    and r1: "bind_err (pow2_mean bx0) (\<lambda>m2. bind_err (pow2_mean bx1) (\<lambda>m3.
               bind_err (pow2_mean init_f) (\<lambda>m4. bind_err (pow2_mean init_df) (\<lambda>m5.
                 Inr (Add (Add (Add (Add m1 m2) m3) m4) m5))))) = Inr l"
    unfolding final_loss_def by (blast dest: bind_err_InrD)
  from r1 obtain m2 where m2: "pow2_mean bx0 = Inr m2"
    and r2: "bind_err (pow2_mean bx1) (\<lambda>m3.
               bind_err (pow2_mean init_f) (\<lambda>m4. bind_err (pow2_mean init_df) (\<lambda>m5.
                 Inr (Add (Add (Add (Add m1 m2) m3) m4) m5)))) = Inr l"
    by (blast dest: bind_err_InrD)
  from r2 obtain m3 where m3: "pow2_mean bx1 = Inr m3"
    and r3: "bind_err (pow2_mean init_f) (\<lambda>m4. bind_err (pow2_mean init_df) (\<lambda>m5.
                 Inr (Add (Add (Add (Add m1 m2) m3) m4) m5))) = Inr l"
    by (blast dest: bind_err_InrD)
  from r3 obtain m4 where m4: "pow2_mean init_f = Inr m4"
    and r4: "bind_err (pow2_mean init_df) (\<lambda>m5. Inr (Add (Add (Add (Add m1 m2) m3) m4) m5)) = Inr l"
    by (blast dest: bind_err_InrD)
  from r4 obtain m5 where m5: "pow2_mean init_df = Inr m5"
    and l: "l = Add (Add (Add (Add m1 m2) m3) m4) m5"
    by (auto dest: bind_err_InrD)
  note D = pow2_mean_InrD [OF m1] pow2_mean_InrD [OF m2] pow2_mean_InrD [OF m3]
    pow2_mean_InrD [OF m4] pow2_mean_InrD [OF m5]
  show "eval \<theta> \<sigma> l = mean_sq (map (eval \<theta> \<sigma>) pde) + mean_sq (map (eval \<theta> \<sigma>) bx0)
           + mean_sq (map (eval \<theta> \<sigma>) bx1) + mean_sq (map (eval \<theta> \<sigma>) init_f)
           + mean_sq (map (eval \<theta> \<sigma>) init_df)"
    using D by (simp add: l)
  show "pde \<noteq> []" "bx0 \<noteq> []" "bx1 \<noteq> []" "init_f \<noteq> []" "init_df \<noteq> []"
    using D by simp_all
qed

lemma final_loss_Inr:
  assumes "pde \<noteq> []" "bx0 \<noteq> []" "bx1 \<noteq> []" "init_f \<noteq> []" "init_df \<noteq> []"
  shows "\<exists>l. final_loss pde bx0 bx1 init_f init_df = Inr l"
  using assms by (simp add: final_loss_def pow2_mean_Inr)

lemma pde_loss_Inr:
  assumes "requires_grad x" "requires_grad t" "numel x = numel t" "0 < numel x" "C \<noteq> 0"
  shows "\<exists>dx dt. df (map2 forward_row (elems \<sigma> x) (elems \<sigma> t)) x 2 = Inr dx \<and>
                 df (map2 forward_row (elems \<sigma> x) (elems \<sigma> t)) t 2 = Inr dt \<and>
                 length dx = numel x \<and> length dt = numel x \<and>
                 pde_loss forward \<sigma> x t C = Inr (map2 Sub dx (map (\<lambda>e. Mul (Const (1 / C ^ 2)) e) dt))"
proof -
  let ?f = "map2 forward_row (elems \<sigma> x) (elems \<sigma> t)"
  have fw: "forward (elems \<sigma> x) (elems \<sigma> t) = Inr ?f"
    using assms(3) by (simp add: forward_Inr)
  have nt: "0 < numel t" "numel t = numel x"
    using assms(3,4) by simp_all
  obtain dx where dx: "df ?f x 2 = Inr dx"
    using df_2_forward_ok [OF assms(1) assms(3) assms(4) refl, of \<sigma>] by blast
  obtain dt where dt: "df ?f t 2 = Inr dt"
    using df_2_forward_ok [OF assms(2) assms(3) nt, of \<sigma>] by blast
  have rw: "rowwise (tid x) ?f" "rowwise (tid t) ?f"
    using assms(3) by (simp_all add: rowwise_forward_elems)
  from df_2_InrD [OF dx] obtain rx where
    rx: "autograd_grad ?f x (ones_like x) = Inr rx" "autograd_grad rx x (ones_like x) = Inr dx" by blast
  from df_2_InrD [OF dt] obtain rt where
    rt: "autograd_grad ?f t (ones_like t) = Inr rt" "autograd_grad rt t (ones_like t) = Inr dt" by blast
  have lx: "length dx = numel x"
    using pass_rowwise(2) [OF rx(2)] pass_rowwise(3) [OF rx(1) rw(1)] by simp
  have lt: "length dt = numel x"
    using pass_rowwise(2) [OF rt(2)] pass_rowwise(3) [OF rt(1) rw(2)] assms(3) by simp
  let ?r = "map2 Sub dx (map (\<lambda>e. Mul (Const (1 / C ^ 2)) e) dt)"
  have c2: "C ^ 2 \<noteq> 0" using assms(5) by simp
  have br: "broadcast2 Sub dx (map (\<lambda>e. Mul (Const (1 / C ^ 2)) e) dt) = Inr ?r"
    by (rule broadcast2_same) (simp add: lx lt)
  have pde: "pde_loss forward \<sigma> x t C = Inr ?r"
    unfolding pde_loss_def dfdx_def dfdt_def
    by (simp only: fw bind_err_Inr dx dt c2 if_False br)
  show ?thesis using dx dt lx lt pde by blast
qed

lemma select_first: "0 < numel h \<Longrightarrow> select \<sigma> h 0 = Inr [elems \<sigma> h ! 0]"
  by (simp add: select_def)

lemma select_last: "0 < numel h \<Longrightarrow> select \<sigma> h (- 1) = Inr [elems \<sigma> h ! (numel h - 1)]"
proof -
  assume "0 < numel h"
  then have "nat (int (numel h) + - 1) = numel h - 1" by simp
  with \<open>0 < numel h\<close> show ?thesis by (simp add: select_def Let_def)
qed

lemma select_empty: "numel h = 0 \<Longrightarrow> select \<sigma> h i = Inl IndexError"
  by (simp add: select_def Let_def)

lemma broadcast2_single: "broadcast2 f a [b] = Inr (map (\<lambda>u. f u b) a)"
proof (cases "length a = 1")
  case True
  then obtain a0 where "a = [a0]" by (cases a) auto
  then show ?thesis by (simp add: broadcast2_def)
next
  case False
  then show ?thesis by (simp add: broadcast2_def)
qed

lemma boundary_loss_Inr:
  assumes "select (\<sigma>(k := \<lambda>j. 1)) x i = Inr [xe]"
  shows "boundary_loss forward \<sigma> k x t_idx i
           = Inr (\<sigma>(k := \<lambda>j. 1),
                  map2 forward_row
                    (map (\<lambda>u. Mul u xe) (elems (\<sigma>(k := \<lambda>j. 1)) \<lparr>tid = k, numel = numel t_idx, requires_grad = True\<rparr>))
                    (elems (\<sigma>(k := \<lambda>j. 1)) t_idx))"
  by (simp add: boundary_loss_def Let_def assms broadcast2_single forward_Inr)

lemma boundary_value:
  assumes "select (\<sigma>(k := \<lambda>j. 1)) x i = Inr [elems (\<sigma>(k := \<lambda>j. 1)) x ! m]" "m < numel x"
    and "boundary_loss forward \<sigma> k x t_idx i = Inr (\<sigma>1, r)"
    and "\<sigma>' k = (\<lambda>j. 1)" "\<sigma>' (tid x) = \<sigma> (tid x)" "\<sigma>' (tid t_idx) = \<sigma> (tid t_idx)" "tid x \<noteq> k" "tid t_idx \<noteq> k"
  shows "length r = numel t_idx" "\<sigma>1 = \<sigma>(k := \<lambda>j. 1)"
    "\<And>n. n < numel t_idx \<Longrightarrow> eval \<theta> \<sigma>' (r ! n) = net \<theta> (\<sigma> (tid x) m) (\<sigma> (tid t_idx) n)"
    "\<exists>b. forward b (elems (\<sigma>(k := \<lambda>j. 1)) t_idx) = Inr r \<and> length b = numel t_idx \<and>
         (\<forall>n<numel t_idx. eval \<theta> \<sigma>' (b ! n) = \<sigma> (tid x) m)"
proof -
  let ?\<sigma> = "\<sigma>(k := \<lambda>j. 1)"
  let ?ones = "\<lparr>tid = k, numel = numel t_idx, requires_grad = True\<rparr>"
  note B = boundary_loss_Inr [OF assms(1), of t_idx]
  from B assms(3) have r: "r = map2 forward_row (map (\<lambda>u. Mul u (elems ?\<sigma> x ! m)) (elems ?\<sigma> ?ones)) (elems ?\<sigma> t_idx)"
    and s: "\<sigma>1 = ?\<sigma>" by simp_all
  show "length r = numel t_idx" by (simp add: r)
  show "\<sigma>1 = ?\<sigma>" by fact
  show "eval \<theta> \<sigma>' (r ! n) = net \<theta> (\<sigma> (tid x) m) (\<sigma> (tid t_idx) n)" if "n < numel t_idx" for n
  proof -
    have "eval \<theta> \<sigma>' (elems ?\<sigma> x ! m) = \<sigma> (tid x) m"
      using assms(2,5,7) by (simp add: nth_elems)
    moreover have "eval \<theta> \<sigma>' (elems ?\<sigma> t_idx ! n) = \<sigma> (tid t_idx) n"
      using that assms(6,8) by (simp add: nth_elems)
    moreover have "eval \<theta> \<sigma>' (elems ?\<sigma> ?ones ! n) = 1"
      using that assms(4) by (simp add: nth_elems)
    ultimately show ?thesis
      using that by (simp add: r eval_forward_row)
  qed
  let ?b = "map (\<lambda>u. Mul u (elems ?\<sigma> x ! m)) (elems ?\<sigma> ?ones)"
  have "forward ?b (elems ?\<sigma> t_idx) = Inr r"
    by (simp add: r forward_Inr)
  moreover have "length ?b = numel t_idx" by simp
  moreover have "\<forall>n<numel t_idx. eval \<theta> \<sigma>' (?b ! n) = \<sigma> (tid x) m"
    using assms(2,4,5,7) by (simp add: nth_elems)
  ultimately show "\<exists>b. forward b (elems ?\<sigma> t_idx) = Inr r \<and> length b = numel t_idx \<and>
         (\<forall>n<numel t_idx. eval \<theta> \<sigma>' (b ! n) = \<sigma> (tid x) m)"
    by blast
qed

lemma initial_loss_Inr:
  assumes "0 < numel x_idx"
  shows "\<exists>d. df (map2 forward_row (elems (\<sigma>(Local 2 := \<lambda>j. 0)) x_idx)
                  (elems (\<sigma>(Local 2 := \<lambda>j. 0)) \<lparr>tid = Local 2, numel = numel x_idx, requires_grad = True\<rparr>))
               \<lparr>tid = Local 2, numel = numel x_idx, requires_grad = True\<rparr> 1 = Inr d \<and>
             length d = numel x_idx \<and>
             initial_loss forward \<sigma> x_idx
               = Inr (\<sigma>(Local 2 := \<lambda>j. 0),
                      map2 Sub (map2 forward_row (elems (\<sigma>(Local 2 := \<lambda>j. 0)) x_idx)
                                  (elems (\<sigma>(Local 2 := \<lambda>j. 0)) \<lparr>tid = Local 2, numel = numel x_idx, requires_grad = True\<rparr>))
                               (initial_condition (elems \<sigma> x_idx)),
                      d)"
proof -
  let ?\<sigma> = "\<sigma>(Local 2 := \<lambda>j. 0)"
  let ?ti = "\<lparr>tid = Local 2, numel = numel x_idx, requires_grad = True\<rparr>"
  let ?f = "map2 forward_row (elems ?\<sigma> x_idx) (elems ?\<sigma> ?ti)"
  have fw: "forward (elems ?\<sigma> x_idx) (elems ?\<sigma> ?ti) = Inr ?f"
    by (simp add: forward_Inr)
  have "\<exists>d. df ?f ?ti 1 = Inr d"
    by (rule df_1_ok) (use assms in \<open>simp_all add: mentions_forward_row mentions_nth_elems\<close>)
  then obtain d where d: "df ?f ?ti 1 = Inr d" by blast
  have ld: "length d = numel x_idx"
    using autograd_grad_InrD [OF df_1_InrD [OF d]] by simp
  have br: "broadcast2 Sub ?f (initial_condition (elems \<sigma> x_idx))
      = Inr (map2 Sub ?f (initial_condition (elems \<sigma> x_idx)))"
    by (rule broadcast2_same) (simp add: initial_condition_def)
  have "initial_loss forward \<sigma> x_idx = Inr (?\<sigma>, map2 Sub ?f (initial_condition (elems \<sigma> x_idx)), d)"
    unfolding initial_loss_def Let_def dfdt_def
    by (simp only: fw bind_err_Inr br d)
  with d ld show ?thesis by blast
qed

lemma residuals_Inr:
  assumes "requires_grad x" "requires_grad t" "numel x = numel t" "0 < numel x" "0 < numel x_idx" "C \<noteq> 0"
  shows "\<exists>\<sigma>' pde bx0 bx1 init_f init_df.
           residuals forward \<sigma> x t x_idx t_idx C = Inr (\<sigma>', pde, bx0, bx1, init_f, init_df) \<and>
           length pde = numel x \<and> length bx0 = numel t_idx \<and> length bx1 = numel t_idx \<and>
           length init_f = numel x_idx \<and> length init_df = numel x_idx"
proof -
  from pde_loss_Inr [OF assms(1,2,3,4,6), of \<sigma>] obtain pde where
    pde: "pde_loss forward \<sigma> x t C = Inr pde" "length pde = numel x" by auto
  let ?\<sigma>1 = "\<sigma>(Local 0 := \<lambda>j. 1)"
  let ?\<sigma>2 = "?\<sigma>1(Local 1 := \<lambda>j. 1)"
  obtain bx0 where b0: "boundary_loss forward \<sigma> (Local 0) x t_idx 0 = Inr (?\<sigma>1, bx0)" "length bx0 = numel t_idx"
    using boundary_loss_Inr [OF select_first [OF assms(4)], of \<sigma> "Local 0" t_idx] by simp
  obtain bx1 where b1: "boundary_loss forward ?\<sigma>1 (Local 1) x t_idx (- 1) = Inr (?\<sigma>2, bx1)" "length bx1 = numel t_idx"
    using boundary_loss_Inr [OF select_last [OF assms(4)], of ?\<sigma>1 "Local 1" t_idx] by simp
  from initial_loss_Inr [OF assms(5), of ?\<sigma>2] obtain init_f init_df where
    ini: "initial_loss forward ?\<sigma>2 x_idx = Inr (?\<sigma>2(Local 2 := \<lambda>j. 0), init_f, init_df)"
      "length init_f = numel x_idx" "length init_df = numel x_idx"
    by (auto simp: initial_condition_def)
  have "residuals forward \<sigma> x t x_idx t_idx C = Inr (?\<sigma>2(Local 2 := \<lambda>j. 0), pde, bx0, bx1, init_f, init_df)"
    unfolding residuals_def
    by (simp only: pde b0 b1 ini bind_err_Inr prod.case)
  with pde b0 b1 ini show ?thesis by blast
qed

lemma residuals_InrD:
  assumes "residuals model \<sigma> x t x_idx t_idx C = Inr (\<sigma>', pde, bx0, bx1, init_f, init_df)"
  shows "\<exists>\<sigma>1 \<sigma>2. pde_loss model \<sigma> x t C = Inr pde \<and>
           boundary_loss model \<sigma> (Local 0) x t_idx 0 = Inr (\<sigma>1, bx0) \<and>
           boundary_loss model \<sigma>1 (Local 1) x t_idx (- 1) = Inr (\<sigma>2, bx1) \<and>
           initial_loss model \<sigma>2 x_idx = Inr (\<sigma>', init_f, init_df)"
proof -
  from assms obtain p where p: "pde_loss model \<sigma> x t C = Inr p"
    and r1: "bind_err (boundary_loss model \<sigma> (Local 0) x t_idx 0) (\<lambda>(\<sigma>1, bx0).
               bind_err (boundary_loss model \<sigma>1 (Local 1) x t_idx (- 1)) (\<lambda>(\<sigma>2, bx1).
               bind_err (initial_loss model \<sigma>2 x_idx) (\<lambda>(\<sigma>3, init_f, init_df).
                 Inr (\<sigma>3, p, bx0, bx1, init_f, init_df)))) = Inr (\<sigma>', pde, bx0, bx1, init_f, init_df)"
    unfolding residuals_def by (blast dest: bind_err_InrD)
  from r1 obtain \<sigma>1 b0 where b0: "boundary_loss model \<sigma> (Local 0) x t_idx 0 = Inr (\<sigma>1, b0)"
    and r2: "bind_err (boundary_loss model \<sigma>1 (Local 1) x t_idx (- 1)) (\<lambda>(\<sigma>2, bx1).
               bind_err (initial_loss model \<sigma>2 x_idx) (\<lambda>(\<sigma>3, init_f, init_df).
                 Inr (\<sigma>3, p, b0, bx1, init_f, init_df))) = Inr (\<sigma>', pde, bx0, bx1, init_f, init_df)"
    by (auto dest!: bind_err_InrD)
  from r2 obtain \<sigma>2 b1 where b1: "boundary_loss model \<sigma>1 (Local 1) x t_idx (- 1) = Inr (\<sigma>2, b1)"
    and r3: "bind_err (initial_loss model \<sigma>2 x_idx) (\<lambda>(\<sigma>3, init_f, init_df).
                 Inr (\<sigma>3, p, b0, b1, init_f, init_df)) = Inr (\<sigma>', pde, bx0, bx1, init_f, init_df)"
    by (auto dest!: bind_err_InrD)
  from r3 have "initial_loss model \<sigma>2 x_idx = Inr (\<sigma>', init_f, init_df)" "p = pde" "b0 = bx0" "b1 = bx1"
    by (auto dest!: bind_err_InrD)
  with p b0 b1 show ?thesis by blast
qed

lemma compute_loss_Inr:
  assumes "requires_grad x" "requires_grad t" "numel x = numel t" "0 < numel x"
    "0 < numel x_idx" "0 < numel t_idx" "C \<noteq> 0"
  shows "\<exists>\<sigma>' loss. compute_loss forward \<sigma> x t x_idx t_idx C = Inr (\<sigma>', loss)"
proof -
  from residuals_Inr [OF assms(1,2,3,4,5,7), of \<sigma> t_idx]
  obtain \<sigma>' pde bx0 bx1 init_f init_df where
    r: "residuals forward \<sigma> x t x_idx t_idx C = Inr (\<sigma>', pde, bx0, bx1, init_f, init_df)"
      "length pde = numel x" "length bx0 = numel t_idx" "length bx1 = numel t_idx"
      "length init_f = numel x_idx" "length init_df = numel x_idx"
    by blast
  have "pde \<noteq> []" "bx0 \<noteq> []" "bx1 \<noteq> []" "init_f \<noteq> []" "init_df \<noteq> []"
    using r assms(4,5,6) by auto
  from final_loss_Inr [OF this] obtain l where "final_loss pde bx0 bx1 init_f init_df = Inr l"
    by blast
  with r(1) show ?thesis by (simp add: compute_loss_def)
qed

section \<open>The derivative helper\<close>

lemma df_loop_length:
  "0 < n \<Longrightarrow> df_loop n v h = Inr r \<Longrightarrow> length r = numel h \<and> length v = numel h"
proof (induction n arbitrary: v)
  case 0
  then show ?case by simp
next
  case (Suc n)
  from Suc.prems(2) obtain v' where p: "autograd_grad v h (ones_like h) = Inr v'"
    and rest: "df_loop n v' h = Inr r"
    by (auto split: sum.splits)
  from autograd_grad_InrD [OF p] have l: "length v = numel h" "length v' = numel h"
    by (simp_all add: ones_like_def)
  show ?case
  proof (cases n)
    case 0
    with rest l show ?thesis by simp
  next
    case (Suc m)
    with Suc.IH [of v'] rest l show ?thesis by simp
  qed
qed

lemma df_loop_derivative_loop:
  "length v = numel h \<Longrightarrow> df_loop n v h = derivative_loop n v h"
proof (induction n arbitrary: v)
  case 0
  then show ?case by simp
next
  case (Suc n)
  have o: "ones_like h = replicate (length v) (Const 1)"
    using Suc.prems by (simp add: ones_like_def)
  show ?case
  proof (cases "autograd_grad v h (ones_like h)")
    case (Inl e)
    then show ?thesis using o by simp
  next
    case (Inr v')
    from autograd_grad_InrD [OF Inr] have "length v' = numel h" by simp
    from Suc.IH [OF this] Inr o show ?thesis by simp
  qed
qed

lemma df_shape_mismatch:
  "1 \<le> order \<Longrightarrow> length output \<noteq> numel input_var \<Longrightarrow> df output input_var order = Inl GradShapeMismatch"
proof -
  assume a: "1 \<le> order" "length output \<noteq> numel input_var"
  then obtain n where n: "nat order = Suc n" by (cases "nat order") auto
  have "autograd_grad output input_var (ones_like input_var) = Inl GradShapeMismatch"
    using a(2) by (auto simp: autograd_grad_def ones_like_def)
  then show ?thesis by (simp add: df_def n)
qed

lemma df_untracked:
  assumes "1 \<le> order" "\<not> requires_grad h" "length outs = numel h" "list_ex needs_grad outs"
  shows "df outs h order = Inl InputNoGrad"
proof -
  obtain n where n: "nat order = Suc n" using assms(1) by (cases "nat order") auto
  have "autograd_grad outs h (ones_like h) = Inl InputNoGrad"
    using assms(2-4) by (simp add: autograd_grad_def ones_like_def)
  then show ?thesis by (simp add: df_def n)
qed

lemma df_unused:
  assumes "1 \<le> order" "requires_grad h" "length outs = numel h" "list_ex needs_grad outs"
    "\<not> list_ex (uses (tid h)) outs"
  shows "df outs h order = Inl UnusedInput"
proof -
  obtain n where n: "nat order = Suc n" using assms(1) by (cases "nat order") auto
  have "autograd_grad outs h (ones_like h) = Inl UnusedInput"
    using assms(2-5) by (simp add: autograd_grad_def ones_like_def)
  then show ?thesis by (simp add: df_def n)
qed

lemma dfdt_untracked_time:
  assumes "0 < numel x" "numel t = numel x" "\<not> requires_grad t"
  shows "dfdt forward \<sigma> x t 1 = Inl InputNoGrad"
proof -
  let ?f = "map2 forward_row (elems \<sigma> x) (elems \<sigma> t)"
  have "list_ex needs_grad ?f"
    using assms(1,2) by (intro list_ex_nth [of 0]) (simp_all add: needs_grad_forward_row)
  then have "df ?f t 1 = Inl InputNoGrad"
    using assms by (intro df_untracked) simp_all
  then show ?thesis
    using assms(2) by (simp add: dfdt_def forward_Inr)
qed

lemma df_2_ok_general:
  assumes "requires_grad h" "length outs = numel h" "0 < numel h" "rowwise (tid h) outs"
    "mentions (tid h) 0 (outs ! 0)"
    "mentions (tid h) 0 (sum_expr (arriving (Elem (tid h) 0) (bp (Const 1) (outs ! 0))))"
  shows "\<exists>r. df outs h 2 = Inr r"
proof -
  from pass_ok [OF assms(1,2,3,5)] obtain r1 where r1: "autograd_grad outs h (ones_like h) = Inr r1"
    by blast
  note P1 = pass_rowwise [OF r1 assms(4)]
  have "mentions (tid h) 0 (r1 ! 0)"
    using assms(3,6) by (simp add: P1(4))
  from pass_ok [OF assms(1) P1(2) assms(3) this] obtain r2 where "autograd_grad r1 h (ones_like h) = Inr r2"
    by blast
  with r1 show ?thesis by (simp add: df_def numeral_2_eq_2)
qed

lemma df_2_value:
  assumes "df outs h 2 = Inr r" "rowwise (tid h) outs" "j < numel h"
  shows "length r = numel h"
    "eval \<theta> \<sigma> (r ! j) = partial \<theta> \<sigma> (tid h) j (sum_expr (arriving (Elem (tid h) j) (bp (Const 1) (outs ! j))))"
proof -
  from df_2_InrD [OF assms(1)] obtain r1 where
    p1: "autograd_grad outs h (ones_like h) = Inr r1" and p2: "autograd_grad r1 h (ones_like h) = Inr r"
    by blast
  note P1 = pass_rowwise [OF p1 assms(2)]
  note P2 = pass_rowwise [OF p2 P1(3)]
  show "length r = numel h" by (rule P2(2))
  show "eval \<theta> \<sigma> (r ! j) = partial \<theta> \<sigma> (tid h) j (sum_expr (arriving (Elem (tid h) j) (bp (Const 1) (outs ! j))))"
    using P2(5) [OF assms(3)] P1(4) [OF assms(3)] by simp
qed

lemma rowwise_analytic:
  assumes "numel x = numel t"
  shows "rowwise k (map2 (\<lambda>a b. Mul (Power a 2) (Power b 3)) (elems \<sigma> x) (elems \<sigma> t))"
  using assms by (auto simp: rowwise_def mentions_nth_elems)

section \<open>Evenly spaced points and their grid\<close>

lemma length_linspace [simp]: "length (linspace a b n) = n"
  by (simp add: linspace_def)

lemma nth_linspace:
  "i < n \<Longrightarrow> 2 \<le> n \<Longrightarrow> linspace a b n ! i = a + real i * ((b - a) / real (n - 1))"
  by (simp add: linspace_def)

lemma linspace_first: "1 \<le> n \<Longrightarrow> linspace a b n ! 0 = a"
  by (simp add: linspace_def)

lemma linspace_last: "2 \<le> n \<Longrightarrow> linspace a b n ! (n - 1) = b"
proof -
  assume n: "2 \<le> n"
  then have "real (n - 1) \<noteq> 0" by simp
  then have "real (n - 1) * ((b - a) / real (n - 1)) = b - a" by simp
  with n show ?thesis by (simp add: nth_linspace)
qed

lemma linspace_strict:
  assumes "2 \<le> n" "a < b" "i < j" "j < n"
  shows "linspace a b n ! i < linspace a b n ! j"
proof -
  have "0 < (b - a) / real (n - 1)" using assms by simp
  moreover have "real i < real j" using assms by simp
  ultimately have "real i * ((b - a) / real (n - 1)) < real j * ((b - a) / real (n - 1))"
    by (rule mult_strict_right_mono [rotated])
  then show ?thesis using assms by (simp add: nth_linspace)
qed

lemma sorted_wrt_linspace: "2 \<le> n \<Longrightarrow> a < b \<Longrightarrow> sorted_wrt (<) (linspace a b n)"
  by (simp add: sorted_wrt_iff_nth_less linspace_strict)

lemma length_concat_map_replicate [simp]: "length (concat (map (replicate m) xs)) = length xs * m"
  by (induction xs) simp_all

lemma nth_concat_map_replicate:
  "i < length xs \<Longrightarrow> j < m \<Longrightarrow> concat (map (replicate m) xs) ! (i * m + j) = xs ! i"
proof (induction xs arbitrary: i)
  case Nil
  then show ?case by simp
next
  case (Cons x xs)
  show ?case
  proof (cases i)
    case 0
    with Cons.prems show ?thesis by (simp add: nth_append)
  next
    case (Suc i')
    then have "i * m + j = m + (i' * m + j)" by simp
    with Cons Suc show ?thesis by (simp add: nth_append)
  qed
qed

lemma length_concat_replicate [simp]: "length (concat (replicate n ts)) = n * length ts"
  by (induction n) simp_all

lemma nth_concat_replicate:
  "i < n \<Longrightarrow> j < length ts \<Longrightarrow> concat (replicate n ts) ! (i * length ts + j) = ts ! j"
proof (induction n arbitrary: i)
  case 0
  then show ?case by simp
next
  case (Suc n)
  show ?case
  proof (cases i)
    case 0
    with Suc.prems show ?thesis by (simp add: nth_append)
  next
    case (Suc i')
    then have "i * length ts + j = length ts + (i' * length ts + j)" by simp
    with Suc.prems Suc.IH [of i'] Suc show ?thesis by (simp add: nth_append)
  qed
qed

lemma map_from_list: "map (from_list vs) [0..<length vs] = vs"
  by (rule nth_equalityI) (simp_all add: from_list_def)

lemma grid_constructionD:
  assumes "grid_construction x0 x1 nx t0 t1 nt \<sigma>0 = (\<sigma>, x, t, x_idx, t_idx)"
  shows "x = \<lparr>tid = Input 2, numel = nx * nt, requires_grad = True\<rparr>"
    "t = \<lparr>tid = Input 3, numel = nx * nt, requires_grad = True\<rparr>"
    "x_idx = \<lparr>tid = Input 0, numel = nx, requires_grad = True\<rparr>"
    "t_idx = \<lparr>tid = Input 1, numel = nt, requires_grad = True\<rparr>"
    "\<And>i. i < nx \<Longrightarrow> \<sigma> (Input 0) i = linspace x0 x1 nx ! i"
    "\<And>j. j < nt \<Longrightarrow> \<sigma> (Input 1) j = linspace t0 t1 nt ! j"
    "\<And>i j. i < nx \<Longrightarrow> j < nt \<Longrightarrow> \<sigma> (Input 2) (i * nt + j) = linspace x0 x1 nx ! i"
    "\<And>i j. i < nx \<Longrightarrow> j < nt \<Longrightarrow> \<sigma> (Input 3) (i * nt + j) = linspace t0 t1 nt ! j"
    "\<And>k. \<sigma> (Local k) = \<sigma>0 (Local k)"
proof -
  note g = assms [unfolded grid_construction_def Let_def meshgrid_ij_def flatten_def, simplified]
  show "x = \<lparr>tid = Input 2, numel = nx * nt, requires_grad = True\<rparr>"
    "t = \<lparr>tid = Input 3, numel = nx * nt, requires_grad = True\<rparr>"
    "x_idx = \<lparr>tid = Input 0, numel = nx, requires_grad = True\<rparr>"
    "t_idx = \<lparr>tid = Input 1, numel = nt, requires_grad = True\<rparr>"
    using g by auto
  have s: "\<sigma> = \<sigma>0(Input 0 := from_list (linspace x0 x1 nx), Input 1 := from_list (linspace t0 t1 nt),
                  Input 2 := from_list (concat (map (replicate nt) (linspace x0 x1 nx))),
                  Input 3 := from_list (concat (replicate nx (linspace t0 t1 nt))))"
    using g by auto
  show "\<sigma> (Input 0) i = linspace x0 x1 nx ! i" if "i < nx" for i
    using that by (simp add: s from_list_def)
  show "\<sigma> (Input 1) j = linspace t0 t1 nt ! j" if "j < nt" for j
    using that by (simp add: s from_list_def)
  show "\<sigma> (Input 2) (i * nt + j) = linspace x0 x1 nx ! i" if "i < nx" "j < nt" for i j
  proof -
    have "i * nt + j < nx * nt"
    proof -
      have "i * nt + j < i * nt + nt" using that by simp
      also have "\<dots> = Suc i * nt" by simp
      also have "\<dots> \<le> nx * nt" using that by (intro mult_le_mono1) simp
      finally show ?thesis .
    qed
    then show ?thesis
      using that by (simp add: s from_list_def nth_concat_map_replicate)
  qed
  show "\<sigma> (Input 3) (i * nt + j) = linspace t0 t1 nt ! j" if "i < nx" "j < nt" for i j
  proof -
    have "i * nt + j < nx * nt"
    proof -
      have "i * nt + j < i * nt + nt" using that by simp
      also have "\<dots> = Suc i * nt" by simp
      also have "\<dots> \<le> nx * nt" using that by (intro mult_le_mono1) simp
      finally show ?thesis .
    qed
    then show ?thesis
      using that nth_concat_replicate [of i nx j "linspace t0 t1 nt"]
      by (simp add: s from_list_def)
  qed
  show "\<sigma> (Local k) = \<sigma>0 (Local k)" for k
    by (simp add: s)
qed

lemma grid_contents:
  assumes "grid_construction x0 x1 nx t0 t1 nt \<sigma>0 = (\<sigma>, x, t, x_idx, t_idx)"
  shows "contents \<sigma> x_idx = linspace x0 x1 nx" "contents \<sigma> t_idx = linspace t0 t1 nt"
    "contents \<sigma> x = concat (map (replicate nt) (linspace x0 x1 nx))"
    "contents \<sigma> t = concat (replicate nx (linspace t0 t1 nt))"
proof -
  note g = assms [unfolded grid_construction_def Let_def meshgrid_ij_def flatten_def, simplified]
  have m: "\<And>vs n. n = length vs \<Longrightarrow> map (from_list vs) [0..<n] = vs"
    by (simp add: map_from_list)
  show "contents \<sigma> x_idx = linspace x0 x1 nx" "contents \<sigma> t_idx = linspace t0 t1 nt"
    "contents \<sigma> x = concat (map (replicate nt) (linspace x0 x1 nx))"
    "contents \<sigma> t = concat (replicate nx (linspace t0 t1 nt))"
    using g by (auto simp: contents_def intro!: m)
qed

section \<open>The calls of a training run\<close>

lemma epoch_calls:
  assumes "compute_loss forward (heap s) x t x_idx t_idx 1 = Inr (\<sigma>', loss)"
  shows "\<exists>s'. epoch adam fmt x t x_idx t_idx ep s = Inr s' \<and>
           calls s' = calls s @ [ComputeLoss, ZeroGrad, Backward, Step]
             @ (if ep mod 300 = 0 then [Print (progress_line fmt ep (eval (theta s) \<sigma>' loss))] else [])"
  by (simp add: epoch_def assms Let_def split: prod.splits)

lemma epoch_InrD:
  assumes "epoch adam fmt x t x_idx t_idx ep s = Inr s'"
  shows "\<exists>\<sigma>' loss. compute_loss forward (heap s) x t x_idx t_idx 1 = Inr (\<sigma>', loss) \<and>
           calls s' = calls s @ [ComputeLoss, ZeroGrad, Backward, Step]
             @ (if ep mod 300 = 0 then [Print (progress_line fmt ep (eval (theta s) \<sigma>' loss))] else [])"
proof -
  from assms obtain r where r: "compute_loss forward (heap s) x t x_idx t_idx 1 = Inr r"
    unfolding epoch_def by (blast dest: bind_err_InrD)
  obtain \<sigma>' loss where "r = (\<sigma>', loss)" by (cases r)
  with r epoch_calls [of s x t x_idx t_idx \<sigma>' loss adam fmt ep] assms show ?thesis
    by auto
qed

lemma run_epochs_calls:
  assumes "\<And>\<sigma>. \<exists>\<sigma>' loss. compute_loss forward \<sigma> x t x_idx t_idx 1 = Inr (\<sigma>', loss)"
  shows "\<exists>s' vs. run_epochs adam fmt x t x_idx t_idx eps s = Inr s' \<and> length vs = length eps \<and>
           calls s' = calls s @ concat (map2 (segment fmt) eps vs)"
proof (induction eps arbitrary: s)
  case Nil
  show ?case by simp
next
  case (Cons ep eps)
  from assms [of "heap s"] obtain \<sigma>' loss where
    c: "compute_loss forward (heap s) x t x_idx t_idx 1 = Inr (\<sigma>', loss)" by blast
  from epoch_calls [OF c, of adam fmt ep] obtain s1 where
    s1: "epoch adam fmt x t x_idx t_idx ep s = Inr s1"
        "calls s1 = calls s @ segment fmt ep (eval (theta s) \<sigma>' loss)"
    by (auto simp: segment_def)
  from Cons.IH [of s1] obtain s' vs where
    r: "run_epochs adam fmt x t x_idx t_idx eps s1 = Inr s'" "length vs = length eps"
       "calls s' = calls s1 @ concat (map2 (segment fmt) eps vs)"
    by blast
  have "run_epochs adam fmt x t x_idx t_idx (ep # eps) s = Inr s'"
    using s1 r by simp
  moreover have "length (eval (theta s) \<sigma>' loss # vs) = length (ep # eps)"
    using r by simp
  moreover have "calls s' = calls s @ concat (map2 (segment fmt) (ep # eps) (eval (theta s) \<sigma>' loss # vs))"
    using s1 r by simp
  ultimately show ?case by blast
qed

lemma map2_upt: "length vs = n \<Longrightarrow> map2 f [0..<n] vs = map (\<lambda>i. f i (vs ! i)) [0..<n]"
  by (rule nth_equalityI) simp_all

lemma train_calls:
  "\<exists>s vs. train adam fmt \<theta>0 o0 \<sigma>0 = Inr s \<and> length vs = 3000 \<and>
          calls s = concat (map (\<lambda>ep. segment fmt ep (vs ! ep)) [0..<3000])"
proof -
  obtain \<sigma> x t x_idx t_idx where g: "grid_construction 0 1 100 0 1 150 \<sigma>0 = (\<sigma>, x, t, x_idx, t_idx)"
    by (cases "grid_construction 0 1 100 0 1 150 \<sigma>0") auto
  note D = grid_constructionD(1-4) [OF g]
  have ok: "\<exists>\<sigma>' loss. compute_loss forward \<sigma>1 x t x_idx t_idx 1 = Inr (\<sigma>', loss)" for \<sigma>1
    by (rule compute_loss_Inr) (simp_all add: D)
  let ?s0 = "\<lparr>theta = \<theta>0, grads = \<lambda>p. 0, opt = o0, heap = \<sigma>, calls = []\<rparr>"
  from run_epochs_calls [OF ok, of adam fmt "[0..<3000]" ?s0] obtain s vs where
    r: "run_epochs adam fmt x t x_idx t_idx [0..<3000] ?s0 = Inr s" "length vs = 3000"
       "calls s = concat (map2 (segment fmt) [0..<3000] vs)"
    by auto
  have "train adam fmt \<theta>0 o0 \<sigma>0 = Inr s"
    using g r(1) by (simp add: train_def)
  moreover have "calls s = concat (map (\<lambda>ep. segment fmt ep (vs ! ep)) [0..<3000])"
    using r(2,3) by (simp add: map2_upt)
  ultimately show ?thesis using r(2) by blast
qed

lemma epoch_loop_pass:
  assumes "compute_loss forward (heap s) x t x_idx t_idx 1 = Inr (\<sigma>', loss)"
  shows "\<exists>s'. epoch adam fmt x t x_idx t_idx ep s = Inr s' \<and> loop_pass adam fmt x t x_idx t_idx ep s s'"
proof -
  let ?g = "\<lambda>p. eval (theta s) \<sigma>' (sum_expr (arriving (Param p) (bp (Const 1) loss)))"
  obtain o' \<theta>' where a: "adam (opt s) (theta s) ?g = (o', \<theta>')"
    by (cases "adam (opt s) (theta s) ?g") auto
  let ?s4 = "s\<lparr>heap := \<sigma>', grads := ?g, theta := \<theta>', opt := o',
               calls := calls s @ [ComputeLoss, ZeroGrad, Backward, Step]\<rparr>"
  let ?s' = "if ep mod 300 = 0
             then ?s4\<lparr>calls := calls ?s4 @ [Print (progress_line fmt ep (eval (theta s) \<sigma>' loss))]\<rparr>
             else ?s4"
  have e: "epoch adam fmt x t x_idx t_idx ep s = Inr ?s'"
    by (simp add: epoch_def assms Let_def a)
  have "loop_pass adam fmt x t x_idx t_idx ep s ?s'"
    unfolding loop_pass_def
    by (rule exI [of _ \<sigma>'], rule exI [of _ loss]) (simp add: assms a progress_line_def)
  with e show ?thesis by blast
qed

lemma run_epochs_trajectory:
  assumes "\<And>\<sigma>. \<exists>\<sigma>' loss. compute_loss forward \<sigma> x t x_idx t_idx 1 = Inr (\<sigma>', loss)"
  shows "\<exists>ss. length ss = Suc (length eps) \<and> ss ! 0 = s \<and>
           run_epochs adam fmt x t x_idx t_idx eps s = Inr (ss ! length eps) \<and>
           (\<forall>i<length eps. loop_pass adam fmt x t x_idx t_idx (eps ! i) (ss ! i) (ss ! Suc i))"
proof (induction eps arbitrary: s)
  case Nil
  show ?case by (rule exI [of _ "[s]"]) simp
next
  case (Cons ep eps)
  from assms [of "heap s"] obtain \<sigma>' loss where
    c: "compute_loss forward (heap s) x t x_idx t_idx 1 = Inr (\<sigma>', loss)" by blast
  from epoch_loop_pass [OF c, of adam fmt ep] obtain s1 where
    s1: "epoch adam fmt x t x_idx t_idx ep s = Inr s1" "loop_pass adam fmt x t x_idx t_idx ep s s1"
    by blast
  from Cons.IH [of s1] obtain ss where
    ss: "length ss = Suc (length eps)" "ss ! 0 = s1"
        "run_epochs adam fmt x t x_idx t_idx eps s1 = Inr (ss ! length eps)"
        "\<forall>i<length eps. loop_pass adam fmt x t x_idx t_idx (eps ! i) (ss ! i) (ss ! Suc i)"
    by blast
  have "\<forall>i<length (ep # eps). loop_pass adam fmt x t x_idx t_idx ((ep # eps) ! i) ((s # ss) ! i) ((s # ss) ! Suc i)"
  proof (intro allI impI)
    fix i assume i: "i < length (ep # eps)"
    show "loop_pass adam fmt x t x_idx t_idx ((ep # eps) ! i) ((s # ss) ! i) ((s # ss) ! Suc i)"
    proof (cases i)
      case 0
      with s1(2) ss(2) show ?thesis by simp
    next
      case (Suc j)
      with i ss(4) show ?thesis by simp
    qed
  qed
  moreover have "run_epochs adam fmt x t x_idx t_idx (ep # eps) s = Inr ((s # ss) ! length (ep # eps))"
    using s1(1) ss(3) by simp
  moreover have "length (s # ss) = Suc (length (ep # eps))" "(s # ss) ! 0 = s"
    using ss(1) by simp_all
  ultimately show ?case by blast
qed

lemma printed_append [simp]: "printed (a @ b) = printed a @ printed b"
  by (induction a rule: printed.induct) simp_all

lemma printed_concat: "printed (concat css) = concat (map printed css)"
  by (induction css) simp_all

lemma printed_segment:
  "printed (segment fmt ep v) = (if ep mod 300 = 0 then [progress_line fmt ep v] else [])"
  by (simp add: segment_def)

lemma concat_map_if:
  "concat (map (\<lambda>x. if P x then [f x] else []) xs) = map f (filter P xs)"
  by (induction xs) simp_all

lemma filter_mod_block:
  assumes "0 < m"
  shows "filter (\<lambda>e. e mod m = 0) [m * n..<m * n + m] = [m * n]"
proof -
  have "[m * n..<m * n + m] = map (\<lambda>r. m * n + r) [0..<m]"
    by (simp add: map_add_upt add.commute)
  then have "filter (\<lambda>e. e mod m = 0) [m * n..<m * n + m]
      = map (\<lambda>r. m * n + r) (filter (\<lambda>r. (m * n + r) mod m = 0) [0..<m])"
    by (simp add: filter_map comp_def)
  also have "filter (\<lambda>r. (m * n + r) mod m = 0) [0..<m] = filter (\<lambda>r. r = 0) [0..<m]"
    by (rule filter_cong) auto
  also have "\<dots> = [0]"
    using assms by (simp add: upt_conv_Cons filter_empty_conv)
  finally show ?thesis by simp
qed

lemma filter_mod_upt:
  assumes "0 < m"
  shows "filter (\<lambda>e. e mod m = 0) [0..<m * n] = map (\<lambda>k. m * k) [0..<n]"
proof (induction n)
  case 0
  show ?case by simp
next
  case (Suc n)
  have e: "m * Suc n = m * n + m" by simp
  have "[0..<m * n + m] = [0..<m * n] @ [m * n..<m * n + m]"
    by (rule upt_add_eq_append) simp
  then have "filter (\<lambda>e. e mod m = 0) [0..<m * Suc n]
      = filter (\<lambda>e. e mod m = 0) [0..<m * n] @ filter (\<lambda>e. e mod m = 0) [m * n..<m * n + m]"
    unfolding e by (simp only: filter_append)
  also have "\<dots> = map (\<lambda>k. m * k) [0..<n] @ [m * n]"
    by (simp only: Suc.IH filter_mod_block [OF assms])
  also have "\<dots> = map (\<lambda>k. m * k) [0..<Suc n]"
    by simp
  finally show ?case .
qed

lemma count_list_concat: "count_list (concat css) c = (\<Sum>cs\<leftarrow>css. count_list cs c)"
  by (induction css) simp_all

lemma count_segment:
  "count_list (segment fmt ep v) ComputeLoss = 1" "count_list (segment fmt ep v) ZeroGrad = 1"
  "count_list (segment fmt ep v) Backward = 1" "count_list (segment fmt ep v) Step = 1"
  by (simp_all add: segment_def)

lemma sum_list_ones: "(\<Sum>x\<leftarrow>xs. Suc 0) = length xs"
  by (induction xs) simp_all

section \<open>The total loss\<close>

text \<open>
  Claim C1. Whenever \<^verbatim>\<open>compute_loss\<close> returns, the value of the loss it returns is the
  sum of five means of squares, one for each residual of lines 103 to 116 (PDE, left
  boundary, right boundary, initial value, initial derivative), each mean taken over
  the elements of its residual and each with weight one. The only coefficient in the
  computation is the \<open>1/C\<^sup>2\<close> inside the PDE residual. This holds for any model.
\<close>

theorem total_loss_is_sum_of_five_means:
  assumes "compute_loss model \<sigma> x t x_idx t_idx C = Inr (\<sigma>', loss)"
  shows "\<exists>pde bx0 bx1 init_f init_df.
           residuals model \<sigma> x t x_idx t_idx C = Inr (\<sigma>', pde, bx0, bx1, init_f, init_df) \<and>
           eval \<theta> \<sigma>' loss
             = (\<Sum>v\<leftarrow>map (eval \<theta> \<sigma>') pde. v\<^sup>2) / real (length pde)
             + (\<Sum>v\<leftarrow>map (eval \<theta> \<sigma>') bx0. v\<^sup>2) / real (length bx0)
             + (\<Sum>v\<leftarrow>map (eval \<theta> \<sigma>') bx1. v\<^sup>2) / real (length bx1)
             + (\<Sum>v\<leftarrow>map (eval \<theta> \<sigma>') init_f. v\<^sup>2) / real (length init_f)
             + (\<Sum>v\<leftarrow>map (eval \<theta> \<sigma>') init_df. v\<^sup>2) / real (length init_df)"
proof -
  from assms obtain res where res: "residuals model \<sigma> x t x_idx t_idx C = Inr res"
    and fin: "(case res of (\<sigma>', pde, bx0, bx1, init_f, init_df) \<Rightarrow>
                bind_err (final_loss pde bx0 bx1 init_f init_df) (\<lambda>l. Inr (\<sigma>', l))) = Inr (\<sigma>', loss)"
    unfolding compute_loss_def by (blast dest: bind_err_InrD)
  obtain \<sigma>r pde bx0 bx1 init_f init_df where r: "res = (\<sigma>r, pde, bx0, bx1, init_f, init_df)"
    by (cases res) auto
  from fin r have fl: "final_loss pde bx0 bx1 init_f init_df = Inr loss" and s: "\<sigma>r = \<sigma>'"
    by (auto dest!: bind_err_InrD)
  show ?thesis
    using res r s final_loss_InrD(1) [OF fl, of \<theta> \<sigma>'] by (auto simp: mean_sq_def)
qed

theorem total_loss_is_sum_of_five_means_witness:
  "\<exists>\<sigma>' loss pde bx0 bx1 init_f init_df.
     compute_loss forward (\<lambda>k j. 0) \<lparr>tid = Input 2, numel = 1, requires_grad = True\<rparr>
       \<lparr>tid = Input 3, numel = 1, requires_grad = True\<rparr> \<lparr>tid = Input 0, numel = 1, requires_grad = True\<rparr>
       \<lparr>tid = Input 1, numel = 1, requires_grad = True\<rparr> 1 = Inr (\<sigma>', loss) \<and>
     residuals forward (\<lambda>k j. 0) \<lparr>tid = Input 2, numel = 1, requires_grad = True\<rparr>
       \<lparr>tid = Input 3, numel = 1, requires_grad = True\<rparr> \<lparr>tid = Input 0, numel = 1, requires_grad = True\<rparr>
       \<lparr>tid = Input 1, numel = 1, requires_grad = True\<rparr> 1 = Inr (\<sigma>', pde, bx0, bx1, init_f, init_df) \<and>
     eval (\<lambda>p. 0) \<sigma>' loss
       = (\<Sum>v\<leftarrow>map (eval (\<lambda>p. 0) \<sigma>') pde. v\<^sup>2) / real (length pde)
       + (\<Sum>v\<leftarrow>map (eval (\<lambda>p. 0) \<sigma>') bx0. v\<^sup>2) / real (length bx0)
       + (\<Sum>v\<leftarrow>map (eval (\<lambda>p. 0) \<sigma>') bx1. v\<^sup>2) / real (length bx1)
       + (\<Sum>v\<leftarrow>map (eval (\<lambda>p. 0) \<sigma>') init_f. v\<^sup>2) / real (length init_f)
       + (\<Sum>v\<leftarrow>map (eval (\<lambda>p. 0) \<sigma>') init_df. v\<^sup>2) / real (length init_df)"
proof -
  let ?x = "\<lparr>tid = Input 2, numel = 1, requires_grad = True\<rparr>"
  let ?t = "\<lparr>tid = Input 3, numel = 1, requires_grad = True\<rparr>"
  let ?xi = "\<lparr>tid = Input 0, numel = 1, requires_grad = True\<rparr>"
  let ?ti = "\<lparr>tid = Input 1, numel = 1, requires_grad = True\<rparr>"
  have "\<exists>\<sigma>' loss. compute_loss forward (\<lambda>k j. 0) ?x ?t ?xi ?ti 1 = Inr (\<sigma>', loss)"
    by (rule compute_loss_Inr) simp_all
  then obtain \<sigma>' loss where c: "compute_loss forward (\<lambda>k j. 0) ?x ?t ?xi ?ti 1 = Inr (\<sigma>', loss)"
    by blast
  from total_loss_is_sum_of_five_means [OF c, of "\<lambda>p. 0"] c show ?thesis by blast
qed

section \<open>The PDE residual\<close>

text \<open>
  Claim C2. For tracked grid tensors \<open>x\<close> and \<open>t\<close> of the same size, the PDE residual of
  \<^verbatim>\<open>compute_loss\<close> is, at every interior collocation point \<open>i\<close>, the second derivative
  of the field function by space minus \<open>1/C\<^sup>2\<close> times its second derivative by time,
  both taken at \<open>(x[i], t[i])\<close>. The two derivatives come from two order-2 extractions,
  one by \<open>x\<close> and one by \<open>t\<close>, of the forward evaluation \<open>f = model(x, t)\<close>; the program
  evaluates the network once for each extraction, and both evaluations give the same \<open>f\<close>.
\<close>

theorem pde_residual_second_derivatives:
  assumes "requires_grad x" "requires_grad t" "tid x \<noteq> tid t" "numel x = numel t" "0 < numel x"
    and "C \<noteq> 0"
  shows "\<exists>f dx dt r.
           forward (elems \<sigma> x) (elems \<sigma> t) = Inr f \<and> df f x 2 = Inr dx \<and> df f t 2 = Inr dt \<and>
           pde_loss forward \<sigma> x t C = Inr r \<and> length r = numel x \<and>
           (\<forall>i<numel x. r ! i = Sub (dx ! i) (Mul (Const (1 / C\<^sup>2)) (dt ! i))) \<and>
           (\<forall>i<numel x. \<exists>fx fxx ft ftt.
              (\<forall>a. DERIV (\<lambda>u. net \<theta> u (\<sigma> (tid t) i)) a :> fx a) \<and>
              DERIV fx (\<sigma> (tid x) i) :> fxx \<and>
              (\<forall>b. DERIV (\<lambda>u. net \<theta> (\<sigma> (tid x) i) u) b :> ft b) \<and>
              DERIV ft (\<sigma> (tid t) i) :> ftt \<and>
              eval \<theta> \<sigma> (r ! i) = fxx - 1 / C\<^sup>2 * ftt)"
proof -
  let ?f = "map2 forward_row (elems \<sigma> x) (elems \<sigma> t)"
  have fw: "forward (elems \<sigma> x) (elems \<sigma> t) = Inr ?f"
    using assms(4) by (simp add: forward_Inr)
  have nt: "0 < numel t" "numel t = numel x"
    using assms(4,5) by simp_all
  obtain dx where dx: "df ?f x 2 = Inr dx"
    using df_2_forward_ok [OF assms(1) assms(4) assms(5) refl, of \<sigma>] by blast
  obtain dt where dt: "df ?f t 2 = Inr dt"
    using df_2_forward_ok [OF assms(2) assms(4) nt, of \<sigma>] by blast
  have rw: "rowwise (tid x) ?f" "rowwise (tid t) ?f"
    using assms(4) by (simp_all add: rowwise_forward_elems)
  from df_2_InrD [OF dx] obtain rx where
    rx: "autograd_grad ?f x (ones_like x) = Inr rx" "autograd_grad rx x (ones_like x) = Inr dx" by blast
  from df_2_InrD [OF dt] obtain rt where
    rt: "autograd_grad ?f t (ones_like t) = Inr rt" "autograd_grad rt t (ones_like t) = Inr dt" by blast
  have lx: "length dx = numel x"
    using pass_rowwise(2) [OF rx(2)] pass_rowwise(3) [OF rx(1) rw(1)] by simp
  have lt: "length dt = numel x"
    using pass_rowwise(2) [OF rt(2)] pass_rowwise(3) [OF rt(1) rw(2)] assms(4) by simp
  let ?r = "map2 Sub dx (map (\<lambda>e. Mul (Const (1 / C ^ 2)) e) dt)"
  have c2: "C ^ 2 \<noteq> 0" using assms(6) by simp
  have br: "broadcast2 Sub dx (map (\<lambda>e. Mul (Const (1 / C ^ 2)) e) dt) = Inr ?r"
    by (rule broadcast2_same) (simp add: lx lt)
  have pde: "pde_loss forward \<sigma> x t C = Inr ?r"
    unfolding pde_loss_def dfdx_def dfdt_def
    by (simp only: fw bind_err_Inr dx dt c2 if_False br)
  have pt: "\<exists>fx fxx ft ftt.
              (\<forall>a. DERIV (\<lambda>u. net \<theta> u (\<sigma> (tid t) i)) a :> fx a) \<and>
              DERIV fx (\<sigma> (tid x) i) :> fxx \<and>
              (\<forall>b. DERIV (\<lambda>u. net \<theta> (\<sigma> (tid x) i) u) b :> ft b) \<and>
              DERIV ft (\<sigma> (tid t) i) :> ftt \<and>
              eval \<theta> \<sigma> (?r ! i) = fxx - 1 / C\<^sup>2 * ftt" if i: "i < numel x" for i
  proof -
    have it: "i < numel t" using i assms(4) by simp
    from df_second_derivative [OF dx rw(1) i, of \<theta> \<sigma>] obtain fx where
      fx: "\<forall>v. DERIV (\<lambda>u. eval \<theta> (upd \<sigma> (tid x) i u) (?f ! i)) v :> fx v"
          "DERIV fx (\<sigma> (tid x) i) :> eval \<theta> \<sigma> (dx ! i)" by blast
    from df_second_derivative [OF dt rw(2) it, of \<theta> \<sigma>] obtain ft where
      ft: "\<forall>v. DERIV (\<lambda>u. eval \<theta> (upd \<sigma> (tid t) i u) (?f ! i)) v :> ft v"
          "DERIV ft (\<sigma> (tid t) i) :> eval \<theta> \<sigma> (dt ! i)" by blast
    have ex: "(\<lambda>u. eval \<theta> (upd \<sigma> (tid x) i u) (?f ! i)) = (\<lambda>u. net \<theta> u (\<sigma> (tid t) i))"
      using i it assms(1,3) by (simp add: eval_forward_upd_x)
    have et: "(\<lambda>u. eval \<theta> (upd \<sigma> (tid t) i u) (?f ! i)) = (\<lambda>u. net \<theta> (\<sigma> (tid x) i) u)"
      using i it assms(2,3) by (simp add: eval_forward_upd_t)
    have ev: "eval \<theta> \<sigma> (?r ! i) = eval \<theta> \<sigma> (dx ! i) - 1 / C\<^sup>2 * eval \<theta> \<sigma> (dt ! i)"
      using i lx lt by simp
    show ?thesis
      using fx ft ev unfolding ex et by blast
  qed
  have el: "\<forall>i<numel x. ?r ! i = Sub (dx ! i) (Mul (Const (1 / C\<^sup>2)) (dt ! i))"
    using lx lt by simp
  have lr: "length ?r = numel x"
    using lx lt by simp
  show ?thesis
    by (rule exI [of _ ?f], rule exI [of _ dx], rule exI [of _ dt], rule exI [of _ ?r])
       (use fw dx dt pde lr el pt in blast)
qed

theorem pde_residual_second_derivatives_witness:
  "requires_grad \<lparr>tid = Input 2, numel = 1, requires_grad = True\<rparr> \<and>
   requires_grad \<lparr>tid = Input 3, numel = 1, requires_grad = True\<rparr> \<and>
   Input 2 \<noteq> Input 3 \<and> (1::real) \<noteq> 0 \<and>
   (\<exists>r. pde_loss forward (\<lambda>k j. 0) \<lparr>tid = Input 2, numel = 1, requires_grad = True\<rparr>
          \<lparr>tid = Input 3, numel = 1, requires_grad = True\<rparr> 1 = Inr r \<and> length r = 1)"
proof -
  let ?x = "\<lparr>tid = Input 2, numel = 1, requires_grad = True\<rparr>"
  let ?t = "\<lparr>tid = Input 3, numel = 1, requires_grad = True\<rparr>"
  have h: "requires_grad ?x" "requires_grad ?t" "tid ?x \<noteq> tid ?t" "numel ?x = numel ?t" "0 < numel ?x"
    "(1::real) \<noteq> 0"
    by simp_all
  from pde_residual_second_derivatives [OF h, of "\<lambda>k j. 0" "\<lambda>p. 0"]
  obtain r where "pde_loss forward (\<lambda>k j. 0) ?x ?t 1 = Inr r" "length r = numel ?x"
    by blast
  then show ?thesis by simp
qed

section \<open>The shape and the weighting of the derivative helper\<close>

text \<open>
  Claim C3. For \<open>order \<ge> 1\<close>, whenever \<^verbatim>\<open>df\<close> returns, its result has the shape of
  \<^verbatim>\<open>input_var\<close>, the output had that shape too, and the weights
  \<^verbatim>\<open>ones_like(input_var)\<close> of each pass are the all-ones weighting of the elements of
  the output. When the output has the shape of \<^verbatim>\<open>input_var\<close>, as all outputs of the
  program do, \<^verbatim>\<open>df\<close> is the derivative operation that weights by ones of the output's
  shape.
\<close>

theorem df_shape_and_weighting:
  assumes "1 \<le> order"
  shows "(\<forall>r. df output input_var order = Inr r \<longrightarrow>
            length r = numel input_var \<and> length output = numel input_var \<and>
            ones_like input_var = replicate (length output) (Const 1)) \<and>
         (length output = numel input_var \<longrightarrow>
            df output input_var order = derivative output input_var order)"
proof -
  have pos: "0 < nat order" using assms by simp
  have "length r = numel input_var \<and> length output = numel input_var \<and>
        ones_like input_var = replicate (length output) (Const 1)"
    if "df output input_var order = Inr r" for r
    using df_loop_length [OF pos that [unfolded df_def]] by (simp add: ones_like_def)
  moreover have "df output input_var order = derivative output input_var order"
    if "length output = numel input_var"
    using df_loop_derivative_loop [OF that] by (simp add: df_def derivative_def)
  ultimately show ?thesis by blast
qed

theorem df_shape_and_weighting_witness:
  "(1::int) \<le> 1 \<and>
   df [Mul (Elem (Input 0) 0) (Elem (Input 0) 0)] \<lparr>tid = Input 0, numel = 1, requires_grad = True\<rparr> 1
     = Inr [Add (Mul (Const 1) (Elem (Input 0) 0)) (Mul (Const 1) (Elem (Input 0) 0))] \<and>
   length [Add (Mul (Const 1) (Elem (Input 0) 0)) (Mul (Const 1) (Elem (Input 0) 0))]
     = numel \<lparr>tid = Input 0, numel = 1, requires_grad = True\<rparr> \<and>
   df [Mul (Elem (Input 0) 0) (Elem (Input 0) 0)] \<lparr>tid = Input 0, numel = 1, requires_grad = True\<rparr> 1
     = derivative [Mul (Elem (Input 0) 0) (Elem (Input 0) 0)] \<lparr>tid = Input 0, numel = 1, requires_grad = True\<rparr> 1"
proof -
  let ?h = "\<lparr>tid = Input 0, numel = 1, requires_grad = True\<rparr>"
  let ?out = "[Mul (Elem (Input 0) 0) (Elem (Input 0) 0)]"
  have d: "df ?out ?h 1 = Inr [Add (Mul (Const 1) (Elem (Input 0) 0)) (Mul (Const 1) (Elem (Input 0) 0))]"
    by (simp add: df_def autograd_grad_def ones_like_def arriving_def)
  have l: "length ?out = numel ?h" by simp
  from df_shape_and_weighting [of 1 ?out ?h] d l show ?thesis by simp
qed

section \<open>The boundary residuals\<close>

text \<open>
  Claim C4. On the grid of the program (at least two points in space, at least one in
  time) the left-boundary residual is \<open>f(x0, t)\<close> and the right-boundary residual is
  \<open>f(x1, t)\<close> for every \<open>t\<close> of \<^verbatim>\<open>t_idx\<close>, where \<open>x0\<close> and \<open>x1\<close> are the bounds of the
  spatial domain: the first and the last element of the flattened grid \<^verbatim>\<open>x\<close>, from which
  the program builds the two constants, are these bounds.
\<close>

theorem boundary_residuals:
  assumes "2 \<le> nx" "1 \<le> nt" "C \<noteq> 0"
    and "grid_construction x0 x1 nx t0 t1 nt \<sigma>0 = (\<sigma>, x, t, x_idx, t_idx)"
  shows "\<exists>\<sigma>' pde bx0 bx1 init_f init_df.
           residuals forward \<sigma> x t x_idx t_idx C = Inr (\<sigma>', pde, bx0, bx1, init_f, init_df) \<and>
           length bx0 = nt \<and> length bx1 = nt \<and> length (contents \<sigma> t_idx) = nt \<and>
           (\<forall>n<nt. eval \<theta> \<sigma>' (bx0 ! n) = net \<theta> x0 (contents \<sigma> t_idx ! n) \<and>
                    eval \<theta> \<sigma>' (bx1 ! n) = net \<theta> x1 (contents \<sigma> t_idx ! n)) \<and>
           (\<exists>boundary_x0 boundary_x1.
              forward boundary_x0 (elems (\<sigma>(Local 0 := \<lambda>j. 1)) t_idx) = Inr bx0 \<and>
              forward boundary_x1 (elems (\<sigma>(Local 0 := \<lambda>j. 1, Local 1 := \<lambda>j. 1)) t_idx) = Inr bx1 \<and>
              length boundary_x0 = nt \<and> length boundary_x1 = nt \<and>
              (\<forall>n<nt. eval \<theta> \<sigma>' (boundary_x0 ! n) = x0 \<and> eval \<theta> \<sigma>' (boundary_x1 ! n) = x1))"
proof -
  note D = grid_constructionD [OF assms(4)]
  have pos: "0 < nx * nt" using assms(1,2) by simp
  have h: "requires_grad x" "requires_grad t" "numel x = numel t" "0 < numel x" "0 < numel x_idx"
    using D(1-4) pos assms(1) by simp_all
  from residuals_Inr [OF h assms(3), of \<sigma> t_idx]
  obtain \<sigma>' pde bx0 bx1 init_f init_df where
    r: "residuals forward \<sigma> x t x_idx t_idx C = Inr (\<sigma>', pde, bx0, bx1, init_f, init_df)"
    by blast
  from residuals_InrD [OF r] obtain \<sigma>1 \<sigma>2 where
    b0: "boundary_loss forward \<sigma> (Local 0) x t_idx 0 = Inr (\<sigma>1, bx0)" and
    b1: "boundary_loss forward \<sigma>1 (Local 1) x t_idx (- 1) = Inr (\<sigma>2, bx1)" and
    ini: "initial_loss forward \<sigma>2 x_idx = Inr (\<sigma>', init_f, init_df)"
    by blast
  have s1: "\<sigma>1 = \<sigma>(Local 0 := \<lambda>j. 1)"
    using boundary_loss_Inr [OF select_first [OF h(4)], of \<sigma> "Local 0" t_idx] b0 by simp
  have s2: "\<sigma>2 = \<sigma>1(Local 1 := \<lambda>j. 1)"
    using boundary_loss_Inr [OF select_last [OF h(4)], of \<sigma>1 "Local 1" t_idx] b1 by simp
  have s3: "\<sigma>' = \<sigma>2(Local 2 := \<lambda>j. 0)"
    using initial_loss_Inr [OF h(5), of \<sigma>2] ini by auto
  have tx: "tid x = Input 2" "tid t_idx = Input 1" "numel t_idx = nt" "numel x = nx * nt"
    using D(1-4) by simp_all
  have first: "\<sigma> (Input 2) 0 = x0"
    using D(7) [of 0 0] assms(1,2) by (simp add: linspace_first)
  have "(nx - 1) * nt + (nt - 1) = nx * nt - 1"
  proof -
    obtain a b where "nx = Suc a" "nt = Suc b"
      using assms(1,2) by (cases nx; cases nt) auto
    then show ?thesis by simp
  qed
  then have last: "\<sigma> (Input 2) (nx * nt - 1) = x1"
    using D(7) [of "nx - 1" "nt - 1"] assms(1,2) linspace_last [of nx x0 x1] by simp
  have v0: "eval \<theta> \<sigma>' (bx0 ! n) = net \<theta> (\<sigma> (tid x) 0) (\<sigma> (tid t_idx) n)" if "n < numel t_idx" for n
    by (rule boundary_value(3) [OF select_first [OF h(4)] h(4) b0 _ _ _ _ _ that])
       (simp_all add: s3 s2 s1 tx)
  have v1: "eval \<theta> \<sigma>' (bx1 ! n) = net \<theta> (\<sigma>1 (tid x) (numel x - 1)) (\<sigma>1 (tid t_idx) n)" if "n < numel t_idx" for n
    by (rule boundary_value(3) [OF select_last [OF h(4)] _ b1 _ _ _ _ _ that])
       (use h(4) in \<open>simp_all add: s3 s2 s1 tx\<close>)
  have l0: "length bx0 = nt"
    using boundary_loss_Inr [OF select_first [OF h(4)], of \<sigma> "Local 0" t_idx] b0 tx by auto
  have l1: "length bx1 = nt"
    using boundary_loss_Inr [OF select_last [OF h(4)], of \<sigma>1 "Local 1" t_idx] b1 tx by auto
  have c: "contents \<sigma> t_idx ! n = \<sigma> (Input 1) n" if "n < nt" for n
    using that tx by (simp add: contents_def)
  have vals: "\<forall>n<nt. eval \<theta> \<sigma>' (bx0 ! n) = net \<theta> x0 (contents \<sigma> t_idx ! n) \<and>
                eval \<theta> \<sigma>' (bx1 ! n) = net \<theta> x1 (contents \<sigma> t_idx ! n)"
    using v0 v1 first last c by (simp add: tx s1)
  have lc: "length (contents \<sigma> t_idx) = nt"
    using tx by (simp add: contents_def)
  have "\<exists>b. forward b (elems (\<sigma>(Local 0 := \<lambda>j. 1)) t_idx) = Inr bx0 \<and> length b = numel t_idx \<and>
         (\<forall>n<numel t_idx. eval \<theta> \<sigma>' (b ! n) = \<sigma> (tid x) 0)"
    by (rule boundary_value(4) [OF select_first [OF h(4)] h(4) b0]) (simp_all add: s3 s2 s1 tx)
  then obtain c0 where c0: "forward c0 (elems (\<sigma>(Local 0 := \<lambda>j. 1)) t_idx) = Inr bx0" "length c0 = nt"
    "\<forall>n<nt. eval \<theta> \<sigma>' (c0 ! n) = x0"
    using first by (auto simp: tx)
  have "\<exists>b. forward b (elems (\<sigma>1(Local 1 := \<lambda>j. 1)) t_idx) = Inr bx1 \<and> length b = numel t_idx \<and>
         (\<forall>n<numel t_idx. eval \<theta> \<sigma>' (b ! n) = \<sigma>1 (tid x) (numel x - 1))"
    by (rule boundary_value(4) [OF select_last [OF h(4)] _ b1])
       (use h(4) in \<open>simp_all add: s3 s2 s1 tx\<close>)
  then obtain c1 where
    c1: "forward c1 (elems (\<sigma>(Local 0 := \<lambda>j. 1, Local 1 := \<lambda>j. 1)) t_idx) = Inr bx1" "length c1 = nt"
    "\<forall>n<nt. eval \<theta> \<sigma>' (c1 ! n) = x1"
    using last by (auto simp: tx s1)
  show ?thesis
    using r l0 l1 lc vals c0 c1 by blast
qed

theorem boundary_residuals_witness:
  "(2::nat) \<le> 100 \<and> (1::nat) \<le> 150 \<and> (1::real) \<noteq> 0 \<and>
   (\<exists>\<sigma> x t x_idx t_idx \<sigma>' pde bx0 bx1 init_f init_df.
      grid_construction 0 1 100 0 1 150 (\<lambda>k j. 0) = (\<sigma>, x, t, x_idx, t_idx) \<and>
      residuals forward \<sigma> x t x_idx t_idx 1 = Inr (\<sigma>', pde, bx0, bx1, init_f, init_df) \<and>
      length bx0 = 150 \<and> length bx1 = 150 \<and>
      eval (\<lambda>p. 0) \<sigma>' (bx0 ! 0) = net (\<lambda>p. 0) 0 (contents \<sigma> t_idx ! 0) \<and>
      eval (\<lambda>p. 0) \<sigma>' (bx1 ! 0) = net (\<lambda>p. 0) 1 (contents \<sigma> t_idx ! 0))"
proof -
  obtain \<sigma> x t x_idx t_idx where
    g: "grid_construction 0 1 100 0 1 150 (\<lambda>k j. 0) = (\<sigma>, x, t, x_idx, t_idx)"
    by (cases "grid_construction 0 1 100 0 1 150 (\<lambda>k j. 0)") auto
  have h: "(2::nat) \<le> 100" "(1::nat) \<le> 150" "(1::real) \<noteq> 0" by simp_all
  from boundary_residuals [OF h g, of "\<lambda>p. 0"] obtain \<sigma>' pde bx0 bx1 init_f init_df where
    r: "residuals forward \<sigma> x t x_idx t_idx 1 = Inr (\<sigma>', pde, bx0, bx1, init_f, init_df)"
       "length bx0 = 150" "length bx1 = 150"
       "\<forall>n<150. eval (\<lambda>p. 0) \<sigma>' (bx0 ! n) = net (\<lambda>p. 0) 0 (contents \<sigma> t_idx ! n) \<and>
                 eval (\<lambda>p. 0) \<sigma>' (bx1 ! n) = net (\<lambda>p. 0) 1 (contents \<sigma> t_idx ! n)"
    by blast
  from r(4) have "eval (\<lambda>p. 0) \<sigma>' (bx0 ! 0) = net (\<lambda>p. 0) 0 (contents \<sigma> t_idx ! 0)"
    "eval (\<lambda>p. 0) \<sigma>' (bx1 ! 0) = net (\<lambda>p. 0) 1 (contents \<sigma> t_idx ! 0)"
    by simp_all
  with g r(1-3) show ?thesis by (intro conjI h) blast
qed

section \<open>The initial residuals\<close>

text \<open>
  Claim C5. The initial-value residual is \<open>f(x, 0) - 0.5 * sin(2 * pi * x)\<close> at every
  \<open>x\<close> of \<^verbatim>\<open>x_idx\<close>, with the time input a tracked tensor of zeros, and the
  initial-derivative residual is the derivative of \<open>f(x, t)\<close> by \<open>t\<close> at \<open>t = 0\<close>, taken
  by one pass with respect to that same tensor.
\<close>

theorem initial_residuals:
  assumes "tid x_idx \<noteq> Local 2" "0 < numel x_idx"
  shows "\<exists>init_f init_df.
           initial_loss forward \<sigma> x_idx = Inr (\<sigma>(Local 2 := \<lambda>j. 0), init_f, init_df) \<and>
           dfdt forward (\<sigma>(Local 2 := \<lambda>j. 0)) x_idx
             \<lparr>tid = Local 2, numel = numel x_idx, requires_grad = True\<rparr> 1 = Inr init_df \<and>
           length init_f = numel x_idx \<and> length init_df = numel x_idx \<and>
           (\<forall>i<numel x_idx.
              (\<sigma>(Local 2 := \<lambda>j. 0)) (Local 2) i = 0 \<and>
              eval \<theta> (\<sigma>(Local 2 := \<lambda>j. 0)) (init_f ! i)
                = net \<theta> (\<sigma> (tid x_idx) i) 0 - 0.5 * sin (2 * pi * \<sigma> (tid x_idx) i) \<and>
              DERIV (\<lambda>u. net \<theta> (\<sigma> (tid x_idx) i) u) 0 :> eval \<theta> (\<sigma>(Local 2 := \<lambda>j. 0)) (init_df ! i))"
proof -
  let ?\<sigma> = "\<sigma>(Local 2 := \<lambda>j. 0)"
  let ?ti = "\<lparr>tid = Local 2, numel = numel x_idx, requires_grad = True\<rparr>"
  let ?f = "map2 forward_row (elems ?\<sigma> x_idx) (elems ?\<sigma> ?ti)"
  from initial_loss_Inr [OF assms(2), of \<sigma>] obtain d where
    d: "df ?f ?ti 1 = Inr d" and ld: "length d = numel x_idx" and
    il: "initial_loss forward \<sigma> x_idx = Inr (?\<sigma>, map2 Sub ?f (initial_condition (elems \<sigma> x_idx)), d)"
    by blast
  let ?init_f = "map2 Sub ?f (initial_condition (elems \<sigma> x_idx))"
  have dd: "dfdt forward ?\<sigma> x_idx ?ti 1 = Inr d"
    using d by (simp add: dfdt_def forward_Inr)
  have rw: "rowwise (tid ?ti) ?f"
    by (rule rowwise_forward_elems) simp
  note P = pass_rowwise [OF df_1_InrD [OF d] rw]
  have pt: "?\<sigma> (Local 2) i = 0 \<and>
        eval \<theta> ?\<sigma> (?init_f ! i) = net \<theta> (\<sigma> (tid x_idx) i) 0 - 0.5 * sin (2 * pi * \<sigma> (tid x_idx) i) \<and>
        DERIV (\<lambda>u. net \<theta> (\<sigma> (tid x_idx) i) u) 0 :> eval \<theta> ?\<sigma> (d ! i)" if i: "i < numel x_idx" for i
  proof -
    have ex: "eval \<theta> s (elems s' x_idx ! i) = \<sigma> (tid x_idx) i"
      if "s (tid x_idx) = \<sigma> (tid x_idx)" "s' (tid x_idx) = \<sigma> (tid x_idx)" for s s'
      using i that by (simp add: nth_elems)
    have v: "eval \<theta> ?\<sigma> (?init_f ! i) = net \<theta> (\<sigma> (tid x_idx) i) 0 - 0.5 * sin (2 * pi * \<sigma> (tid x_idx) i)"
      using i assms(1) by (simp add: initial_condition_def eval_forward_row ex nth_elems)
    have fe: "(\<lambda>u. eval \<theta> (upd ?\<sigma> (Local 2) i u) (?f ! i)) = (\<lambda>u. net \<theta> (\<sigma> (tid x_idx) i) u)"
      using i assms(1) by (simp add: eval_forward_row ex nth_elems upd_def)
    have "DERIV (\<lambda>u. eval \<theta> (upd ?\<sigma> (Local 2) i u) (?f ! i)) (?\<sigma> (Local 2) i)
            :> partial \<theta> (upd ?\<sigma> (Local 2) i (?\<sigma> (Local 2) i)) (Local 2) i (?f ! i)"
      by (rule deriv_sound)
    moreover have "upd ?\<sigma> (Local 2) i (?\<sigma> (Local 2) i) = ?\<sigma>"
      by (rule upd_id)
    ultimately have "DERIV (\<lambda>u. net \<theta> (\<sigma> (tid x_idx) i) u) 0 :> eval \<theta> ?\<sigma> (d ! i)"
      unfolding fe using P(5) [of i \<theta> ?\<sigma>] i by simp
    with v show ?thesis by simp
  qed
  have lf: "length ?init_f = numel x_idx"
    by (simp add: initial_condition_def)
  show ?thesis
    by (rule exI [of _ ?init_f], rule exI [of _ d]) (use il dd ld lf pt in blast)
qed

theorem initial_residuals_witness:
  "tid \<lparr>tid = Input 0, numel = 1, requires_grad = True\<rparr> \<noteq> Local 2 \<and>
   0 < numel \<lparr>tid = Input 0, numel = 1, requires_grad = True\<rparr> \<and>
   (\<exists>init_f init_df.
      initial_loss forward (\<lambda>k j. 1 / 4) \<lparr>tid = Input 0, numel = 1, requires_grad = True\<rparr>
        = Inr ((\<lambda>k j. 1 / 4)(Local 2 := \<lambda>j. 0), init_f, init_df) \<and>
      eval (\<lambda>p. 0) ((\<lambda>k j. 1 / 4)(Local 2 := \<lambda>j. 0)) (init_f ! 0) = net (\<lambda>p. 0) (1 / 4) 0 - 1 / 2 \<and>
      DERIV (\<lambda>u. net (\<lambda>p. 0) (1 / 4) u) 0 :> eval (\<lambda>p. 0) ((\<lambda>k j. 1 / 4)(Local 2 := \<lambda>j. 0)) (init_df ! 0))"
proof -
  let ?xi = "\<lparr>tid = Input 0, numel = 1, requires_grad = True\<rparr>"
  let ?\<sigma> = "(\<lambda>k j. 1 / 4) :: store"
  have h: "tid ?xi \<noteq> Local 2" "0 < numel ?xi" by simp_all
  from initial_residuals [OF h, of ?\<sigma> "\<lambda>p. 0"] obtain init_f init_df where
    r: "initial_loss forward ?\<sigma> ?xi = Inr (?\<sigma>(Local 2 := \<lambda>j. 0), init_f, init_df)"
       "\<forall>i<numel ?xi. (?\<sigma>(Local 2 := \<lambda>j. 0)) (Local 2) i = 0 \<and>
          eval (\<lambda>p. 0) (?\<sigma>(Local 2 := \<lambda>j. 0)) (init_f ! i)
            = net (\<lambda>p. 0) (?\<sigma> (tid ?xi) i) 0 - 0.5 * sin (2 * pi * ?\<sigma> (tid ?xi) i) \<and>
          DERIV (\<lambda>u. net (\<lambda>p. 0) (?\<sigma> (tid ?xi) i) u) 0 :> eval (\<lambda>p. 0) (?\<sigma>(Local 2 := \<lambda>j. 0)) (init_df ! i)"
    by blast
  have s: "sin (2 * pi * (1 / 4)) = (1::real)"
    using sin_pi_half by (simp add: field_simps)
  from r(2) s have "eval (\<lambda>p. 0) (?\<sigma>(Local 2 := \<lambda>j. 0)) (init_f ! 0) = net (\<lambda>p. 0) (1 / 4) 0 - 1 / 2"
    "DERIV (\<lambda>u. net (\<lambda>p. 0) (1 / 4) u) 0 :> eval (\<lambda>p. 0) (?\<sigma>(Local 2 := \<lambda>j. 0)) (init_df ! 0)"
    by simp_all
  with r(1) show ?thesis by (intro conjI h) blast
qed

section \<open>The collocation grid\<close>

text \<open>
  Claim C6. For at least two points in each direction and a lower bound below the upper
  one: the flattened grids \<^verbatim>\<open>x\<close> and \<^verbatim>\<open>t\<close> have \<open>nx * nt\<close> points each; \<^verbatim>\<open>x_idx\<close>
  and \<^verbatim>\<open>t_idx\<close> have \<open>nx\<close> and \<open>nt\<close> points, evenly spaced from the lower to the upper
  bound and strictly increasing; the grid pairs every point of \<^verbatim>\<open>x_idx\<close> with every
  point of \<^verbatim>\<open>t_idx\<close>; and building the grid again from the same domains and counts, in
  whatever store, gives the same tensors with the same contents.
\<close>

theorem collocation_grid:
  assumes "2 \<le> nx" "2 \<le> nt" "x0 < x1" "t0 < t1"
    and "grid_construction x0 x1 nx t0 t1 nt \<sigma>0 = (\<sigma>, x, t, x_idx, t_idx)"
  shows "numel x = nx * nt \<and> numel t = nx * nt \<and> numel x_idx = nx \<and> numel t_idx = nt \<and>
         length (contents \<sigma> x) = nx * nt \<and> length (contents \<sigma> t) = nx * nt \<and>
         length (contents \<sigma> x_idx) = nx \<and> length (contents \<sigma> t_idx) = nt \<and>
         (\<forall>i<nx. contents \<sigma> x_idx ! i = x0 + real i * ((x1 - x0) / real (nx - 1))) \<and>
         (\<forall>j<nt. contents \<sigma> t_idx ! j = t0 + real j * ((t1 - t0) / real (nt - 1))) \<and>
         contents \<sigma> x_idx ! 0 = x0 \<and> contents \<sigma> x_idx ! (nx - 1) = x1 \<and>
         contents \<sigma> t_idx ! 0 = t0 \<and> contents \<sigma> t_idx ! (nt - 1) = t1 \<and>
         sorted_wrt (<) (contents \<sigma> x_idx) \<and> sorted_wrt (<) (contents \<sigma> t_idx) \<and>
         (\<forall>i<nx. \<forall>j<nt. contents \<sigma> x ! (i * nt + j) = contents \<sigma> x_idx ! i \<and>
                          contents \<sigma> t ! (i * nt + j) = contents \<sigma> t_idx ! j) \<and>
         (\<forall>\<sigma>0'. \<exists>\<sigma>'. grid_construction x0 x1 nx t0 t1 nt \<sigma>0' = (\<sigma>', x, t, x_idx, t_idx) \<and>
                 contents \<sigma>' x = contents \<sigma> x \<and> contents \<sigma>' t = contents \<sigma> t \<and>
                 contents \<sigma>' x_idx = contents \<sigma> x_idx \<and> contents \<sigma>' t_idx = contents \<sigma> t_idx)"
proof -
  note D = grid_constructionD(1-4) [OF assms(5)]
  note K = grid_contents [OF assms(5)]
  have sizes: "numel x = nx * nt" "numel t = nx * nt" "numel x_idx = nx" "numel t_idx = nt"
    using D by simp_all
  have lens: "length (contents \<sigma> x) = nx * nt" "length (contents \<sigma> t) = nx * nt"
    "length (contents \<sigma> x_idx) = nx" "length (contents \<sigma> t_idx) = nt"
    by (simp_all add: K)
  have even: "\<forall>i<nx. contents \<sigma> x_idx ! i = x0 + real i * ((x1 - x0) / real (nx - 1))"
    "\<forall>j<nt. contents \<sigma> t_idx ! j = t0 + real j * ((t1 - t0) / real (nt - 1))"
    using assms(1,2) by (simp_all add: K nth_linspace)
  have ends: "contents \<sigma> x_idx ! 0 = x0" "contents \<sigma> x_idx ! (nx - 1) = x1"
    "contents \<sigma> t_idx ! 0 = t0" "contents \<sigma> t_idx ! (nt - 1) = t1"
    using assms(1,2) linspace_last [of nx x0 x1] linspace_last [of nt t0 t1]
    by (simp_all add: K linspace_first)
  have incr: "sorted_wrt (<) (contents \<sigma> x_idx)" "sorted_wrt (<) (contents \<sigma> t_idx)"
    using assms(1-4) by (simp_all add: K sorted_wrt_linspace)
  have outer: "\<forall>i<nx. \<forall>j<nt. contents \<sigma> x ! (i * nt + j) = contents \<sigma> x_idx ! i \<and>
                          contents \<sigma> t ! (i * nt + j) = contents \<sigma> t_idx ! j"
    using nth_concat_replicate [of _ nx _ "linspace t0 t1 nt"]
    by (simp add: K nth_concat_map_replicate)
  have det: "\<exists>\<sigma>'. grid_construction x0 x1 nx t0 t1 nt \<sigma>0' = (\<sigma>', x, t, x_idx, t_idx) \<and>
                 contents \<sigma>' x = contents \<sigma> x \<and> contents \<sigma>' t = contents \<sigma> t \<and>
                 contents \<sigma>' x_idx = contents \<sigma> x_idx \<and> contents \<sigma>' t_idx = contents \<sigma> t_idx" for \<sigma>0'
  proof -
    obtain \<sigma>' x' t' xi' ti' where g': "grid_construction x0 x1 nx t0 t1 nt \<sigma>0' = (\<sigma>', x', t', xi', ti')"
      by (cases "grid_construction x0 x1 nx t0 t1 nt \<sigma>0'") auto
    have "x' = x" "t' = t" "xi' = x_idx" "ti' = t_idx"
      using grid_constructionD(1-4) [OF g'] D by simp_all
    then show ?thesis
      using g' grid_contents [OF g'] K by simp
  qed
  show ?thesis
    using sizes lens even ends incr outer det by blast
qed

theorem collocation_grid_witness:
  "(2::nat) \<le> 100 \<and> (2::nat) \<le> 150 \<and> (0::real) < 1 \<and>
   (\<exists>\<sigma> x t x_idx t_idx.
      grid_construction 0 1 100 0 1 150 (\<lambda>k j. 0) = (\<sigma>, x, t, x_idx, t_idx) \<and>
      numel x = 100 * 150 \<and> numel t = 100 * 150 \<and> numel x_idx = 100 \<and> numel t_idx = 150 \<and>
      contents \<sigma> x_idx ! 0 = 0 \<and> contents \<sigma> x_idx ! (100 - 1) = 1 \<and>
      sorted_wrt (<) (contents \<sigma> x_idx) \<and> sorted_wrt (<) (contents \<sigma> t_idx))"
proof -
  obtain \<sigma> x t x_idx t_idx where
    g: "grid_construction 0 1 100 0 1 150 (\<lambda>k j. 0) = (\<sigma>, x, t, x_idx, t_idx)"
    by (cases "grid_construction 0 1 100 0 1 150 (\<lambda>k j. 0)") auto
  have h: "(2::nat) \<le> 100" "(2::nat) \<le> 150" "(0::real) < 1" by simp_all
  from collocation_grid [OF h(1,2,3,3) g] g show ?thesis
    by (intro conjI h) blast
qed

section \<open>The derivative-order test\<close>

text \<open>
  Claim C7, amended. With the network replaced by \<open>f(x, t) = x\<^sup>2 * t\<^sup>3\<close>, the derivative
  helper with order 2 returns \<open>2 * t\<^sup>3\<close> with respect to \<open>x\<close> and \<open>6 * x\<^sup>2 * t\<close> with respect
  to \<open>t\<close> at every sampled point. The claim as stated has \<open>6 * x * t\<close> for the second:
  at \<open>x = 1/2\<close>, \<open>t = 1\<close> the helper returns \<open>3/2\<close>, not \<open>3\<close>.
\<close>

theorem analytic_second_derivatives:
  assumes "requires_grad x" "requires_grad t" "tid x \<noteq> tid t" "numel x = numel t" "0 < numel x"
  shows "\<exists>dxx dtt. dfdx analytic \<sigma> x t 2 = Inr dxx \<and> dfdt analytic \<sigma> x t 2 = Inr dtt \<and>
           length dxx = numel x \<and> length dtt = numel x \<and>
           (\<forall>i<numel x. eval \<theta> \<sigma> (dxx ! i) = 2 * (\<sigma> (tid t) i) ^ 3 \<and>
                         eval \<theta> \<sigma> (dtt ! i) = 6 * (\<sigma> (tid x) i)\<^sup>2 * \<sigma> (tid t) i)"
proof -
  let ?f = "map2 (\<lambda>a b. Mul (Power a 2) (Power b 3)) (elems \<sigma> x) (elems \<sigma> t)"
  have an: "analytic (elems \<sigma> x) (elems \<sigma> t) = Inr ?f"
    using assms(4) by (simp add: analytic_def)
  have nt: "0 < numel t" using assms(4,5) by simp
  have fi: "?f ! i = Mul (Power (Elem (tid x) i) 2) (Power (Elem (tid t) i) 3)" if "i < numel x" for i
    using that assms(1,2,4) by (simp add: nth_elems)
  have rw: "rowwise (tid x) ?f" "rowwise (tid t) ?f"
    using assms(4) by (simp_all add: rowwise_analytic)
  note f0 = fi [OF assms(5)]
  have lf: "length ?f = numel x" "length ?f = numel t"
    using assms(4) by simp_all
  have "\<exists>r. df ?f x 2 = Inr r"
    by (rule df_2_ok_general [OF assms(1) lf(1) assms(5) rw(1)])
       (use assms(3) in \<open>auto simp: f0 arriving_def\<close>)
  then obtain dxx where dxx: "df ?f x 2 = Inr dxx" by blast
  have "\<exists>r. df ?f t 2 = Inr r"
    by (rule df_2_ok_general [OF assms(2) lf(2) nt rw(2)])
       (use assms(3) in \<open>auto simp: f0 arriving_def\<close>)
  then obtain dtt where dtt: "df ?f t 2 = Inr dtt" by blast
  have vx: "eval \<theta> \<sigma> (dxx ! i) = 2 * (\<sigma> (tid t) i) ^ 3" if "i < numel x" for i
    using df_2_value(2) [OF dxx rw(1) that, of \<theta> \<sigma>] that assms(3) by (auto simp: fi arriving_def)
  have vt: "eval \<theta> \<sigma> (dtt ! i) = 6 * (\<sigma> (tid x) i)\<^sup>2 * \<sigma> (tid t) i" if "i < numel x" for i
  proof -
    have "i < numel t" using that assms(4) by simp
    from df_2_value(2) [OF dtt rw(2) this, of \<theta> \<sigma>] that assms(3) show ?thesis
      by (auto simp: fi arriving_def power2_eq_square)
  qed
  have "length dxx = numel x" "length dtt = numel x"
    using df_2_value(1) [OF dxx rw(1) assms(5)] df_2_value(1) [OF dtt rw(2) nt] assms(4) by simp_all
  moreover have "dfdx analytic \<sigma> x t 2 = Inr dxx" "dfdt analytic \<sigma> x t 2 = Inr dtt"
    using an dxx dtt by (simp_all add: dfdx_def dfdt_def)
  ultimately show ?thesis using vx vt by blast
qed

theorem analytic_second_derivatives_witness:
  "requires_grad \<lparr>tid = Input 0, numel = 1, requires_grad = True\<rparr> \<and>
   requires_grad \<lparr>tid = Input 1, numel = 1, requires_grad = True\<rparr> \<and> Input 0 \<noteq> Input 1 \<and>
   (\<exists>dxx dtt.
      dfdx analytic (\<lambda>k j. if k = Input 0 then 1 / 2 else 1)
        \<lparr>tid = Input 0, numel = 1, requires_grad = True\<rparr>
        \<lparr>tid = Input 1, numel = 1, requires_grad = True\<rparr> 2 = Inr dxx \<and>
      dfdt analytic (\<lambda>k j. if k = Input 0 then 1 / 2 else 1)
        \<lparr>tid = Input 0, numel = 1, requires_grad = True\<rparr>
        \<lparr>tid = Input 1, numel = 1, requires_grad = True\<rparr> 2 = Inr dtt \<and>
      eval (\<lambda>p. 0) (\<lambda>k j. if k = Input 0 then 1 / 2 else 1) (dxx ! 0) = 2 \<and>
      eval (\<lambda>p. 0) (\<lambda>k j. if k = Input 0 then 1 / 2 else 1) (dtt ! 0) = 3 / 2)"
proof -
  let ?x = "\<lparr>tid = Input 0, numel = 1, requires_grad = True\<rparr>"
  let ?t = "\<lparr>tid = Input 1, numel = 1, requires_grad = True\<rparr>"
  let ?\<sigma> = "\<lambda>k j. if k = Input 0 then 1 / 2 else (1::real)"
  have h: "requires_grad ?x" "requires_grad ?t" "tid ?x \<noteq> tid ?t" "numel ?x = numel ?t" "0 < numel ?x"
    by simp_all
  from analytic_second_derivatives [OF h, of ?\<sigma> "\<lambda>p. 0"] obtain dxx dtt where
    d: "dfdx analytic ?\<sigma> ?x ?t 2 = Inr dxx" "dfdt analytic ?\<sigma> ?x ?t 2 = Inr dtt"
    and v: "\<forall>i<numel ?x. eval (\<lambda>p. 0) ?\<sigma> (dxx ! i) = 2 * (?\<sigma> (tid ?t) i) ^ 3 \<and>
                         eval (\<lambda>p. 0) ?\<sigma> (dtt ! i) = 6 * (?\<sigma> (tid ?x) i)\<^sup>2 * ?\<sigma> (tid ?t) i"
    by blast
  from v have "eval (\<lambda>p. 0) ?\<sigma> (dxx ! 0) = 2" "eval (\<lambda>p. 0) ?\<sigma> (dtt ! 0) = 3 / 2"
    by (simp_all add: power2_eq_square)
  with d show ?thesis by auto
qed

theorem analytic_dtt_counterexample:
  "\<exists>dtt. dfdt analytic (\<lambda>k j. if k = Input 0 then 1 / 2 else 1)
            \<lparr>tid = Input 0, numel = 1, requires_grad = True\<rparr>
            \<lparr>tid = Input 1, numel = 1, requires_grad = True\<rparr> 2 = Inr dtt \<and>
          eval (\<lambda>p. 0) (\<lambda>k j. if k = Input 0 then 1 / 2 else 1) (dtt ! 0) = 3 / 2 \<and>
          eval (\<lambda>p. 0) (\<lambda>k j. if k = Input 0 then 1 / 2 else 1) (dtt ! 0)
            \<noteq> 6 * (if Input 0 = Input 0 then 1 / 2 else 1) * (if Input 1 = Input 0 then 1 / 2 else (1::real))"
  by (simp add: dfdt_def analytic_def elems_def df_def autograd_grad_def ones_like_def arriving_def
      numeral_2_eq_2 power2_eq_square)

section \<open>The progress line\<close>

text \<open>
  Claim C8, amended. A pass of the loop body with epoch index \<open>ep\<close> prints one line
  when \<open>ep mod 300 = 0\<close> and nothing otherwise; the line is \<^verbatim>\<open>epoch: \<close>, the index,
  \<^verbatim>\<open>, loss: \<close> and the formatted value the loss had in that pass. The training run prints
  ten lines, for the epochs 0, 300, ..., 2700. The claim as stated has the line in the
  form \<^verbatim>\<open>epoch=<k>, loss=<value>\<close>, which no printed line has.
\<close>

theorem progress_line_every_300:
  "(\<forall>ep s s'. epoch adam fmt x t x_idx t_idx ep s = Inr s' \<longrightarrow>
      (\<exists>\<sigma>' loss. compute_loss forward (heap s) x t x_idx t_idx 1 = Inr (\<sigma>', loss) \<and>
         calls s' = calls s @ [ComputeLoss, ZeroGrad, Backward, Step]
           @ (if ep mod 300 = 0
              then [Print (''epoch: '' @ str_nat ep @ '', loss: '' @ fmt (eval (theta s) \<sigma>' loss))]
              else []))) \<and>
   (\<exists>s vs. train adam fmt \<theta>0 o0 \<sigma>0 = Inr s \<and> length vs = 3000 \<and>
      calls s = concat (map (\<lambda>ep. [ComputeLoss, ZeroGrad, Backward, Step]
           @ (if ep mod 300 = 0 then [Print (''epoch: '' @ str_nat ep @ '', loss: '' @ fmt (vs ! ep))] else []))
         [0..<3000]) \<and>
      printed (calls s)
        = map (\<lambda>k. ''epoch: '' @ str_nat (300 * k) @ '', loss: '' @ fmt (vs ! (300 * k))) [0..<10])"
proof -
  have a: "\<exists>\<sigma>' loss. compute_loss forward (heap s) x t x_idx t_idx 1 = Inr (\<sigma>', loss) \<and>
         calls s' = calls s @ [ComputeLoss, ZeroGrad, Backward, Step]
           @ (if ep mod 300 = 0
              then [Print (''epoch: '' @ str_nat ep @ '', loss: '' @ fmt (eval (theta s) \<sigma>' loss))]
              else [])"
    if "epoch adam fmt x t x_idx t_idx ep s = Inr s'" for ep s s'
    by (rule epoch_InrD [OF that, unfolded progress_line_def])
  from train_calls [of adam fmt \<theta>0 o0 \<sigma>0] obtain s vs where
    r: "train adam fmt \<theta>0 o0 \<sigma>0 = Inr s" "length vs = 3000"
       "calls s = concat (map (\<lambda>ep. segment fmt ep (vs ! ep)) [0..<3000])"
    by blast
  have c: "calls s = concat (map (\<lambda>ep. [ComputeLoss, ZeroGrad, Backward, Step]
           @ (if ep mod 300 = 0 then [Print (''epoch: '' @ str_nat ep @ '', loss: '' @ fmt (vs ! ep))] else []))
         [0..<3000])"
    using r(3) unfolding segment_def progress_line_def .
  have "printed (calls s) = concat (map (\<lambda>ep. if ep mod 300 = 0 then [progress_line fmt ep (vs ! ep)] else []) [0..<3000])"
    by (simp add: r(3) printed_concat comp_def printed_segment)
  also have "\<dots> = map (\<lambda>ep. progress_line fmt ep (vs ! ep)) (filter (\<lambda>ep. ep mod 300 = 0) [0..<300 * 10])"
    by (simp add: concat_map_if)
  also have "filter (\<lambda>ep. ep mod 300 = 0) [0..<300 * 10] = map (\<lambda>k. 300 * k) [0..<10]"
    by (rule filter_mod_upt) simp
  finally have p: "printed (calls s)
        = map (\<lambda>k. ''epoch: '' @ str_nat (300 * k) @ '', loss: '' @ fmt (vs ! (300 * k))) [0..<10]"
    by (simp add: comp_def progress_line_def)
  show ?thesis
    using a r(1,2) c p by blast
qed

theorem progress_line_every_300_witness:
  "\<exists>s s' \<sigma>' loss.
     train (\<lambda>u p g. (u, p)) (\<lambda>r. ''0.500000'') (\<lambda>p. 0) () (\<lambda>k j. 0) = Inr s \<and>
     printed (calls s) = map (\<lambda>k. ''epoch: '' @ str_nat (300 * k) @ '', loss: 0.500000'') [0..<10] \<and>
     epoch (\<lambda>u p g. (u, p)) (\<lambda>r. ''0.500000'') \<lparr>tid = Input 2, numel = 1, requires_grad = True\<rparr>
       \<lparr>tid = Input 3, numel = 1, requires_grad = True\<rparr> \<lparr>tid = Input 0, numel = 1, requires_grad = True\<rparr>
       \<lparr>tid = Input 1, numel = 1, requires_grad = True\<rparr> 0
       \<lparr>theta = \<lambda>p. 0, grads = \<lambda>p. 0, opt = (), heap = \<lambda>k j. 0, calls = []\<rparr> = Inr s' \<and>
     compute_loss forward (\<lambda>k j. 0) \<lparr>tid = Input 2, numel = 1, requires_grad = True\<rparr>
       \<lparr>tid = Input 3, numel = 1, requires_grad = True\<rparr> \<lparr>tid = Input 0, numel = 1, requires_grad = True\<rparr>
       \<lparr>tid = Input 1, numel = 1, requires_grad = True\<rparr> 1 = Inr (\<sigma>', loss) \<and>
     calls s' = [ComputeLoss, ZeroGrad, Backward, Step, Print ''epoch: 0, loss: 0.500000'']"
proof -
  let ?x = "\<lparr>tid = Input 2, numel = 1, requires_grad = True\<rparr>"
  let ?t = "\<lparr>tid = Input 3, numel = 1, requires_grad = True\<rparr>"
  let ?xi = "\<lparr>tid = Input 0, numel = 1, requires_grad = True\<rparr>"
  let ?ti = "\<lparr>tid = Input 1, numel = 1, requires_grad = True\<rparr>"
  let ?adam = "(\<lambda>u p g. (u, p)) :: unit \<Rightarrow> params \<Rightarrow> params \<Rightarrow> unit \<times> params"
  let ?fmt = "(\<lambda>r. ''0.500000'') :: real \<Rightarrow> string"
  let ?s0 = "\<lparr>theta = \<lambda>p. 0, grads = \<lambda>p. 0, opt = (), heap = \<lambda>k j. 0, calls = []\<rparr>"
  note T = progress_line_every_300 [of ?adam ?fmt ?x ?t ?xi ?ti "\<lambda>p. 0" "()" "\<lambda>k j. 0"]
  have "\<exists>\<sigma>' loss. compute_loss forward (heap ?s0) ?x ?t ?xi ?ti 1 = Inr (\<sigma>', loss)"
    by (rule compute_loss_Inr) simp_all
  then obtain \<sigma>0 l0 where c: "compute_loss forward (heap ?s0) ?x ?t ?xi ?ti 1 = Inr (\<sigma>0, l0)"
    by blast
  from epoch_calls [OF c, of ?adam ?fmt 0] obtain s' where
    e: "epoch ?adam ?fmt ?x ?t ?xi ?ti 0 ?s0 = Inr s'" by blast
  from T e obtain \<sigma>' loss where
    a: "compute_loss forward (heap ?s0) ?x ?t ?xi ?ti 1 = Inr (\<sigma>', loss)"
       "calls s' = calls ?s0 @ [ComputeLoss, ZeroGrad, Backward, Step]
           @ (if (0::nat) mod 300 = 0
              then [Print (''epoch: '' @ str_nat 0 @ '', loss: '' @ ?fmt (eval (theta ?s0) \<sigma>' loss))]
              else [])"
    by blast
  from T obtain s vs where
    b: "train ?adam ?fmt (\<lambda>p. 0) () (\<lambda>k j. 0) = Inr s"
       "printed (calls s)
          = map (\<lambda>k. ''epoch: '' @ str_nat (300 * k) @ '', loss: '' @ ?fmt (vs ! (300 * k))) [0..<10]"
    by blast
  have p: "calls s' = [ComputeLoss, ZeroGrad, Backward, Step, Print ''epoch: 0, loss: 0.500000'']"
    using a(2) by simp
  have q: "printed (calls s) = map (\<lambda>k. ''epoch: '' @ str_nat (300 * k) @ '', loss: 0.500000'') [0..<10]"
    using b(2) by simp
  have c': "compute_loss forward (\<lambda>k j. 0) ?x ?t ?xi ?ti 1 = Inr (\<sigma>', loss)"
    using a(1) by simp
  show ?thesis
    by (rule exI [of _ s], rule exI [of _ s'], rule exI [of _ \<sigma>'], rule exI [of _ loss])
       (intro conjI b(1) q e c' p)
qed

theorem progress_line_format_counterexample:
  "\<not> (\<exists>k v. progress_line (\<lambda>r. ''0.500000'') 0 (1 / 2) = ''epoch='' @ k @ '', loss='' @ v)"
  by (simp add: progress_line_def)

section \<open>The training run ends\<close>

text \<open>
  Claim C9. The training run returns, whatever the initial parameters, the optimizer
  and the store: it makes 3000 passes through the loop body, for the epochs 0 to 2999
  in order, and then stops. The states before and after each pass are related as the
  body prescribes: the loss is computed, the gradients are cleared and then hold what
  one backward pass from this loss brings, the optimizer is called once on them and
  gives the next parameters, and at most one line is printed. Each of the four
  operations is thus made exactly 3000 times.
\<close>

theorem training_runs_3000_epochs:
  "\<exists>\<sigma> x t x_idx t_idx ss lines.
     grid_construction 0 1 100 0 1 150 \<sigma>0 = (\<sigma>, x, t, x_idx, t_idx) \<and>
     length ss = 3001 \<and>
     ss ! 0 = \<lparr>theta = \<theta>0, grads = \<lambda>p. 0, opt = o0, heap = \<sigma>, calls = []\<rparr> \<and>
     train adam fmt \<theta>0 o0 \<sigma>0 = Inr (ss ! 3000) \<and>
     (\<forall>ep<3000. \<exists>\<sigma>' loss.
        compute_loss forward (heap (ss ! ep)) x t x_idx t_idx 1 = Inr (\<sigma>', loss) \<and>
        heap (ss ! Suc ep) = \<sigma>' \<and>
        grads (ss ! Suc ep)
          = (\<lambda>p. eval (theta (ss ! ep)) \<sigma>' (sum_expr (arriving (Param p) (bp (Const 1) loss)))) \<and>
        (opt (ss ! Suc ep), theta (ss ! Suc ep))
          = adam (opt (ss ! ep)) (theta (ss ! ep)) (grads (ss ! Suc ep)) \<and>
        calls (ss ! Suc ep) = calls (ss ! ep) @ [ComputeLoss, ZeroGrad, Backward, Step]
          @ (if ep mod 300 = 0
             then [Print (''epoch: '' @ str_nat ep @ '', loss: '' @ fmt (eval (theta (ss ! ep)) \<sigma>' loss))]
             else [])) \<and>
     calls (ss ! 3000) = concat (map (\<lambda>ep. [ComputeLoss, ZeroGrad, Backward, Step] @ lines ep) [0..<3000]) \<and>
     (\<forall>ep. lines ep = [] \<or> (\<exists>l. lines ep = [Print l])) \<and>
     count_list (calls (ss ! 3000)) ComputeLoss = 3000 \<and> count_list (calls (ss ! 3000)) ZeroGrad = 3000 \<and>
     count_list (calls (ss ! 3000)) Backward = 3000 \<and> count_list (calls (ss ! 3000)) Step = 3000"
proof -
  obtain \<sigma> x t x_idx t_idx where g: "grid_construction 0 1 100 0 1 150 \<sigma>0 = (\<sigma>, x, t, x_idx, t_idx)"
    by (cases "grid_construction 0 1 100 0 1 150 \<sigma>0") auto
  note D = grid_constructionD(1-4) [OF g]
  have ok: "\<exists>\<sigma>' loss. compute_loss forward \<sigma>1 x t x_idx t_idx 1 = Inr (\<sigma>', loss)" for \<sigma>1
    by (rule compute_loss_Inr) (simp_all add: D)
  let ?s0 = "\<lparr>theta = \<theta>0, grads = \<lambda>p. 0, opt = o0, heap = \<sigma>, calls = []\<rparr>"
  from run_epochs_trajectory [OF ok, of "[0..<3000]" ?s0 adam fmt] obtain ss where
    ss: "length ss = 3001" "ss ! 0 = ?s0"
        "run_epochs adam fmt x t x_idx t_idx [0..<3000] ?s0 = Inr (ss ! 3000)"
        "\<forall>i<3000. loop_pass adam fmt x t x_idx t_idx ([0..<3000] ! i) (ss ! i) (ss ! Suc i)"
    by auto
  have tr: "train adam fmt \<theta>0 o0 \<sigma>0 = Inr (ss ! 3000)"
    using g ss(3) by (simp add: train_def)
  have steps: "\<forall>ep<3000. \<exists>\<sigma>' loss.
        compute_loss forward (heap (ss ! ep)) x t x_idx t_idx 1 = Inr (\<sigma>', loss) \<and>
        heap (ss ! Suc ep) = \<sigma>' \<and>
        grads (ss ! Suc ep)
          = (\<lambda>p. eval (theta (ss ! ep)) \<sigma>' (sum_expr (arriving (Param p) (bp (Const 1) loss)))) \<and>
        (opt (ss ! Suc ep), theta (ss ! Suc ep))
          = adam (opt (ss ! ep)) (theta (ss ! ep)) (grads (ss ! Suc ep)) \<and>
        calls (ss ! Suc ep) = calls (ss ! ep) @ [ComputeLoss, ZeroGrad, Backward, Step]
          @ (if ep mod 300 = 0
             then [Print (''epoch: '' @ str_nat ep @ '', loss: '' @ fmt (eval (theta (ss ! ep)) \<sigma>' loss))]
             else [])"
  proof (intro allI impI)
    fix ep :: nat assume ep: "ep < 3000"
    then have "[0..<3000] ! ep = ep" by simp
    with ss(4) ep have "loop_pass adam fmt x t x_idx t_idx ep (ss ! ep) (ss ! Suc ep)"
      by fastforce
    then show "\<exists>\<sigma>' loss.
        compute_loss forward (heap (ss ! ep)) x t x_idx t_idx 1 = Inr (\<sigma>', loss) \<and>
        heap (ss ! Suc ep) = \<sigma>' \<and>
        grads (ss ! Suc ep)
          = (\<lambda>p. eval (theta (ss ! ep)) \<sigma>' (sum_expr (arriving (Param p) (bp (Const 1) loss)))) \<and>
        (opt (ss ! Suc ep), theta (ss ! Suc ep))
          = adam (opt (ss ! ep)) (theta (ss ! ep)) (grads (ss ! Suc ep)) \<and>
        calls (ss ! Suc ep) = calls (ss ! ep) @ [ComputeLoss, ZeroGrad, Backward, Step]
          @ (if ep mod 300 = 0
             then [Print (''epoch: '' @ str_nat ep @ '', loss: '' @ fmt (eval (theta (ss ! ep)) \<sigma>' loss))]
             else [])"
      unfolding loop_pass_def .
  qed
  from train_calls [of adam fmt \<theta>0 o0 \<sigma>0] tr obtain vs where
    r: "length vs = 3000"
       "calls (ss ! 3000) = concat (map (\<lambda>ep. segment fmt ep (vs ! ep)) [0..<3000])"
    by auto
  let ?lines = "\<lambda>ep. if ep mod 300 = 0 then [Print (progress_line fmt ep (vs ! ep))] else []"
  have c: "calls (ss ! 3000) = concat (map (\<lambda>ep. [ComputeLoss, ZeroGrad, Backward, Step] @ ?lines ep) [0..<3000])"
    using r(2) unfolding segment_def .
  have l: "\<forall>ep. ?lines ep = [] \<or> (\<exists>l. ?lines ep = [Print l])"
    by simp
  have n: "count_list (calls (ss ! 3000)) ComputeLoss = 3000" "count_list (calls (ss ! 3000)) ZeroGrad = 3000"
    "count_list (calls (ss ! 3000)) Backward = 3000" "count_list (calls (ss ! 3000)) Step = 3000"
    by (simp_all add: r(2) count_list_concat comp_def count_segment sum_list_ones)
  show ?thesis
    by (rule exI [of _ \<sigma>], rule exI [of _ x], rule exI [of _ t], rule exI [of _ x_idx],
        rule exI [of _ t_idx], rule exI [of _ ss], rule exI [of _ ?lines])
       (intro conjI g ss(1) ss(2) tr steps c l n)
qed

theorem training_runs_3000_epochs_witness:
  "\<exists>\<sigma> x t x_idx t_idx ss \<sigma>' loss.
     grid_construction 0 1 100 0 1 150 (\<lambda>k j. 0) = (\<sigma>, x, t, x_idx, t_idx) \<and>
     train (\<lambda>u p g. (u, \<lambda>q. p q - g q / 100)) (\<lambda>r. ''0.500000'') (\<lambda>p. 0) () (\<lambda>k j. 0) = Inr (ss ! 3000) \<and>
     (0::nat) < 3000 \<and>
     compute_loss forward (heap (ss ! 0)) x t x_idx t_idx 1 = Inr (\<sigma>', loss) \<and>
     grads (ss ! Suc 0)
       = (\<lambda>p. eval (theta (ss ! 0)) \<sigma>' (sum_expr (arriving (Param p) (bp (Const 1) loss)))) \<and>
     theta (ss ! Suc 0) = (\<lambda>q. theta (ss ! 0) q - grads (ss ! Suc 0) q / 100) \<and>
     count_list (calls (ss ! 3000)) ComputeLoss = 3000 \<and> count_list (calls (ss ! 3000)) ZeroGrad = 3000 \<and>
     count_list (calls (ss ! 3000)) Backward = 3000 \<and> count_list (calls (ss ! 3000)) Step = 3000"
proof -
  let ?adam = "(\<lambda>u p g. (u, \<lambda>q. p q - g q / 100)) :: unit \<Rightarrow> params \<Rightarrow> params \<Rightarrow> unit \<times> params"
  from training_runs_3000_epochs [of "\<lambda>k j. 0" "\<lambda>p. 0" "()" ?adam "\<lambda>r. ''0.500000''"]
  obtain \<sigma> x t x_idx t_idx ss where
    g: "grid_construction 0 1 100 0 1 150 (\<lambda>k j. 0) = (\<sigma>, x, t, x_idx, t_idx)" and
    tr: "train ?adam (\<lambda>r. ''0.500000'') (\<lambda>p. 0) () (\<lambda>k j. 0) = Inr (ss ! 3000)" and
    st: "\<forall>ep<3000. \<exists>\<sigma>' loss.
        compute_loss forward (heap (ss ! ep)) x t x_idx t_idx 1 = Inr (\<sigma>', loss) \<and>
        heap (ss ! Suc ep) = \<sigma>' \<and>
        grads (ss ! Suc ep)
          = (\<lambda>p. eval (theta (ss ! ep)) \<sigma>' (sum_expr (arriving (Param p) (bp (Const 1) loss)))) \<and>
        (opt (ss ! Suc ep), theta (ss ! Suc ep))
          = ?adam (opt (ss ! ep)) (theta (ss ! ep)) (grads (ss ! Suc ep)) \<and>
        calls (ss ! Suc ep) = calls (ss ! ep) @ [ComputeLoss, ZeroGrad, Backward, Step]
          @ (if ep mod 300 = 0
             then [Print (''epoch: '' @ str_nat ep @ '', loss: '' @ (\<lambda>r::real. ''0.500000'') (eval (theta (ss ! ep)) \<sigma>' loss))]
             else [])" and
    n: "count_list (calls (ss ! 3000)) ComputeLoss = 3000" "count_list (calls (ss ! 3000)) ZeroGrad = 3000"
       "count_list (calls (ss ! 3000)) Backward = 3000" "count_list (calls (ss ! 3000)) Step = 3000"
    by blast
  have z: "(0::nat) < 3000" by simp
  from st [rule_format, OF z] obtain \<sigma>' loss where
    a: "compute_loss forward (heap (ss ! 0)) x t x_idx t_idx 1 = Inr (\<sigma>', loss)"
       "grads (ss ! Suc 0)
          = (\<lambda>p. eval (theta (ss ! 0)) \<sigma>' (sum_expr (arriving (Param p) (bp (Const 1) loss))))"
       "(opt (ss ! Suc 0), theta (ss ! Suc 0)) = ?adam (opt (ss ! 0)) (theta (ss ! 0)) (grads (ss ! Suc 0))"
    by blast
  from a(3) have th: "theta (ss ! Suc 0) = (\<lambda>q. theta (ss ! 0) q - grads (ss ! Suc 0) q / 100)"
    by simp
  show ?thesis
    by (rule exI [of _ \<sigma>], rule exI [of _ x], rule exI [of _ t], rule exI [of _ x_idx],
        rule exI [of _ t_idx], rule exI [of _ ss], rule exI [of _ \<sigma>'], rule exI [of _ loss])
       (intro conjI g tr z a(1) a(2) th n)
qed

section \<open>No graph error in training\<close>

text \<open>
  Claim C10. On a grid with at least one point in each direction the tensors \<^verbatim>\<open>x\<close> and
  \<^verbatim>\<open>t\<close> require grad, and so does the zero tensor \<^verbatim>\<open>t_initial\<close> when the network reads
  it. Each is in the graph of the output that is differentiated against it, and \<^verbatim>\<open>x\<close>
  and \<^verbatim>\<open>t\<close> are in the graph of the first derivative as well, so both passes of the
  order-2 extractions and the pass of the order-1 extraction return, \<^verbatim>\<open>compute_loss\<close>
  returns, and the training run ends without an error.
\<close>

theorem derivatives_taken_by_connected_tracked_tensors:
  assumes "1 \<le> nx" "1 \<le> nt" "C \<noteq> 0"
    and "grid_construction x0 x1 nx t0 t1 nt \<sigma>0 = (\<sigma>, x, t, x_idx, t_idx)"
  shows "requires_grad x \<and> requires_grad t \<and>
         (\<exists>f gx gt dx dt.
            forward (elems \<sigma>1 x) (elems \<sigma>1 t) = Inr f \<and>
            list_ex (uses (tid x)) f \<and> list_ex (uses (tid t)) f \<and>
            autograd_grad f x (ones_like x) = Inr gx \<and> list_ex (uses (tid x)) gx \<and>
            autograd_grad f t (ones_like t) = Inr gt \<and> list_ex (uses (tid t)) gt \<and>
            dfdx forward \<sigma>1 x t 2 = Inr dx \<and> dfdt forward \<sigma>1 x t 2 = Inr dt) \<and>
         (\<exists>f0 d0.
            requires_grad \<lparr>tid = Local 2, numel = numel x_idx, requires_grad = True\<rparr> \<and>
            forward (elems (\<sigma>1(Local 2 := \<lambda>j. 0)) x_idx)
              (elems (\<sigma>1(Local 2 := \<lambda>j. 0)) \<lparr>tid = Local 2, numel = numel x_idx, requires_grad = True\<rparr>)
              = Inr f0 \<and>
            list_ex (uses (Local 2)) f0 \<and>
            dfdt forward (\<sigma>1(Local 2 := \<lambda>j. 0)) x_idx
              \<lparr>tid = Local 2, numel = numel x_idx, requires_grad = True\<rparr> 1 = Inr d0) \<and>
         (\<exists>\<sigma>' loss. compute_loss forward \<sigma>1 x t x_idx t_idx C = Inr (\<sigma>', loss)) \<and>
         (\<exists>s. train adam fmt \<theta>0 o0 \<sigma>0' = Inr s)"
proof -
  note D = grid_constructionD(1-4) [OF assms(4)]
  have pos: "0 < nx * nt" using assms(1,2) by simp
  have h: "requires_grad x" "requires_grad t" "numel x = numel t" "0 < numel x"
    "0 < numel x_idx" "0 < numel t_idx"
    using D pos assms(1,2) by simp_all
  let ?f = "map2 forward_row (elems \<sigma>1 x) (elems \<sigma>1 t)"
  have fw: "forward (elems \<sigma>1 x) (elems \<sigma>1 t) = Inr ?f"
    using h(3) by (simp add: forward_Inr)
  from pde_loss_Inr [OF h(1-4) assms(3), of \<sigma>1] obtain dx dt where
    d: "df ?f x 2 = Inr dx" "df ?f t 2 = Inr dt" by blast
  from df_2_InrD [OF d(1)] obtain gx where
    gx: "autograd_grad ?f x (ones_like x) = Inr gx" "autograd_grad gx x (ones_like x) = Inr dx" by blast
  from df_2_InrD [OF d(2)] obtain gt where
    gt: "autograd_grad ?f t (ones_like t) = Inr gt" "autograd_grad gt t (ones_like t) = Inr dt" by blast
  have u: "list_ex (uses (tid x)) ?f" "list_ex (uses (tid x)) gx"
    "list_ex (uses (tid t)) ?f" "list_ex (uses (tid t)) gt"
    using autograd_grad_InrD [OF gx(1)] autograd_grad_InrD [OF gx(2)]
      autograd_grad_InrD [OF gt(1)] autograd_grad_InrD [OF gt(2)] by simp_all
  have dd: "dfdx forward \<sigma>1 x t 2 = Inr dx" "dfdt forward \<sigma>1 x t 2 = Inr dt"
    using fw d by (simp_all add: dfdx_def dfdt_def)
  have pde_part: "\<exists>f gx gt dx dt.
            forward (elems \<sigma>1 x) (elems \<sigma>1 t) = Inr f \<and>
            list_ex (uses (tid x)) f \<and> list_ex (uses (tid t)) f \<and>
            autograd_grad f x (ones_like x) = Inr gx \<and> list_ex (uses (tid x)) gx \<and>
            autograd_grad f t (ones_like t) = Inr gt \<and> list_ex (uses (tid t)) gt \<and>
            dfdx forward \<sigma>1 x t 2 = Inr dx \<and> dfdt forward \<sigma>1 x t 2 = Inr dt"
    using fw u gx(1) gt(1) dd by blast
  let ?\<sigma> = "\<sigma>1(Local 2 := \<lambda>j. 0)"
  let ?ti = "\<lparr>tid = Local 2, numel = numel x_idx, requires_grad = True\<rparr>"
  let ?f0 = "map2 forward_row (elems ?\<sigma> x_idx) (elems ?\<sigma> ?ti)"
  from initial_loss_Inr [OF h(5), of \<sigma>1] obtain d0 where d0: "df ?f0 ?ti 1 = Inr d0" by blast
  have f0: "forward (elems ?\<sigma> x_idx) (elems ?\<sigma> ?ti) = Inr ?f0"
    by (simp add: forward_Inr)
  have u0: "list_ex (uses (Local 2)) ?f0"
    using autograd_grad_InrD [OF df_1_InrD [OF d0]] by simp
  have "dfdt forward ?\<sigma> x_idx ?ti 1 = Inr d0"
    using f0 d0 by (simp add: dfdt_def)
  with f0 u0 have init_part: "\<exists>f0 d0.
            requires_grad ?ti \<and> forward (elems ?\<sigma> x_idx) (elems ?\<sigma> ?ti) = Inr f0 \<and>
            list_ex (uses (Local 2)) f0 \<and> dfdt forward ?\<sigma> x_idx ?ti 1 = Inr d0"
    by auto
  have loss_part: "\<exists>\<sigma>' loss. compute_loss forward \<sigma>1 x t x_idx t_idx C = Inr (\<sigma>', loss)"
    by (rule compute_loss_Inr [OF h assms(3)])
  have train_part: "\<exists>s. train adam fmt \<theta>0 o0 \<sigma>0' = Inr s"
    using train_calls [of adam fmt \<theta>0 o0 \<sigma>0'] by blast
  show ?thesis
    using h(1,2) pde_part init_part loss_part train_part by blast
qed

theorem derivatives_taken_by_connected_tracked_tensors_witness:
  "(1::nat) \<le> 100 \<and> (1::nat) \<le> 150 \<and> (1::real) \<noteq> 0 \<and>
   (\<exists>\<sigma> x t x_idx t_idx dx dt \<sigma>' loss s.
      grid_construction 0 1 100 0 1 150 (\<lambda>k j. 0) = (\<sigma>, x, t, x_idx, t_idx) \<and>
      requires_grad x \<and> requires_grad t \<and>
      dfdx forward \<sigma> x t 2 = Inr dx \<and> dfdt forward \<sigma> x t 2 = Inr dt \<and>
      compute_loss forward \<sigma> x t x_idx t_idx 1 = Inr (\<sigma>', loss) \<and>
      train (\<lambda>u p g. (u, p)) (\<lambda>r. ''0.500000'') (\<lambda>p. 0) () (\<lambda>k j. 0) = Inr s)"
proof -
  obtain \<sigma> x t x_idx t_idx where
    g: "grid_construction 0 1 100 0 1 150 (\<lambda>k j. 0) = (\<sigma>, x, t, x_idx, t_idx)"
    by (cases "grid_construction 0 1 100 0 1 150 (\<lambda>k j. 0)") auto
  have h: "(1::nat) \<le> 100" "(1::nat) \<le> 150" "(1::real) \<noteq> 0" by simp_all
  from derivatives_taken_by_connected_tracked_tensors [OF h g,
      of \<sigma> "\<lambda>u p g. (u, p)" "\<lambda>r. ''0.500000''" "\<lambda>p. 0" "()" "\<lambda>k j. 0"] g
  show ?thesis by (intro conjI h) blast
qed

end
